theory Spec2Isabelle
  imports Main "HOL-Library.Sublist"
begin

section \<open>Path handling: the parts of \<open>os.path\<close> (POSIX flavour) that \<open>main.py\<close> calls\<close>

text \<open>
  Paths are Python \<open>str\<close> values, modelled as \<open>string\<close>. The separator \<open>/\<close> and the
  extension separator \<open>.\<close> are ASCII, so splitting a UTF-8 byte string at them cuts at the
  same places as splitting the sequence of code points.

  \<open>rfind c s\<close> is \<open>s.rfind(c)\<close> for a one-character \<open>c\<close>: the highest index where \<open>c\<close>
  occurs, or \<open>-1\<close>.
\<close>

fun rfind :: "char \<Rightarrow> string \<Rightarrow> int" where
  "rfind c [] = -1"
| "rfind c (x # xs) =
     (let r = rfind c xs in if 0 \<le> r then r + 1 else if x = c then 0 else -1)"

definition rstrip :: "char \<Rightarrow> string \<Rightarrow> string" where
  "rstrip c s = rev (dropWhile (\<lambda>x. x = c) (rev s))"

definition sep :: char where
  "sep = CHR ''/''"

definition extsep :: char where
  "extsep = CHR ''.''"

text \<open>
  \<open>posixpath.split\<close>:
  \<^verbatim>\<open>
    i = p.rfind(sep) + 1
    head, tail = p[:i], p[i:]
    if head and head != sep*len(head):
        head = head.rstrip(sep)
    return head, tail
  \<close>
\<close>

definition split_path :: "string \<Rightarrow> string \<times> string" where
  "split_path p =
     (let i = nat (rfind sep p + 1);
          head = take i p;
          tail = drop i p
      in (if head \<noteq> [] \<and> head \<noteq> replicate (length head) sep then rstrip sep head else head,
          tail))"

text \<open>
  \<open>genericpath._splitext\<close>, which \<open>posixpath.splitext\<close> calls with \<open>altsep = None\<close>:
  \<^verbatim>\<open>
    sepIndex = p.rfind(sep)
    dotIndex = p.rfind(extsep)
    if dotIndex > sepIndex:
        # skip all leading dots
        filenameIndex = sepIndex + 1
        while filenameIndex < dotIndex:
            if p[filenameIndex:filenameIndex+1] != extsep:
                return p[:dotIndex], p[dotIndex:]
            filenameIndex += 1
    return p, p[:0]
  \<close>
  The loop returns \<open>Some\<close> of the pair when it leaves through its \<open>return\<close>, and \<open>None\<close>
  when it runs to its end.
\<close>

function splitext_loop :: "string \<Rightarrow> nat \<Rightarrow> nat \<Rightarrow> (string \<times> string) option" where
  "splitext_loop p filenameIndex dotIndex =
     (if filenameIndex < dotIndex
      then (if take 1 (drop filenameIndex p) \<noteq> [extsep]
            then Some (take dotIndex p, drop dotIndex p)
            else splitext_loop p (filenameIndex + 1) dotIndex)
      else None)"
  by pat_completeness auto
termination
  by (relation "measure (\<lambda>(p, filenameIndex, dotIndex). dotIndex - filenameIndex)") auto

declare splitext_loop.simps [simp del]

definition splitext :: "string \<Rightarrow> string \<times> string" where
  "splitext p =
     (let sepIndex = rfind sep p;
          dotIndex = rfind extsep p
      in if dotIndex > sepIndex
         then (case splitext_loop p (nat (sepIndex + 1)) (nat dotIndex) of
                 Some r \<Rightarrow> r
               | None \<Rightarrow> (p, []))
         else (p, []))"

text \<open>
  \<open>posixpath.join\<close> with two arguments:
  \<^verbatim>\<open>
    path = a
    for b in p:
        if b.startswith(sep):
            path = b
        elif not path or path.endswith(sep):
            path += b
        else:
            path += sep + b
    return path
  \<close>
\<close>

definition startswith :: "string \<Rightarrow> char \<Rightarrow> bool" where
  "startswith s c = (s \<noteq> [] \<and> hd s = c)"

definition endswith :: "string \<Rightarrow> char \<Rightarrow> bool" where
  "endswith s c = (s \<noteq> [] \<and> last s = c)"

definition join_path :: "string \<Rightarrow> string \<Rightarrow> string" where
  "join_path a b =
     (if startswith b sep then b
      else if a = [] \<or> endswith a sep then a @ b
      else a @ [sep] @ b)"

text \<open>
  \<open>_construct_path\<close> of \<open>main.py\<close>:
  \<^verbatim>\<open>
    head, tail = os.path.split(other_path)
    tail, __ = os.path.splitext(tail)
    this_path = os.path.join(head, tail+ext)
    return this_path
  \<close>
\<close>

definition construct_path :: "string \<Rightarrow> string \<Rightarrow> string" where
  "construct_path other_path ext =
     (let (head, tail) = split_path other_path;
          (tail', uu) = splitext tail;
          this_path = join_path head (tail' @ ext)
      in this_path)"

section \<open>The format specification \<open>02d\<close>\<close>

text \<open>
  \<open>f'{i+1:02d}'\<close> prints a non-negative integer in decimal, filled with zeros on the left
  up to a width of two characters. The argument \<open>i + 1\<close> comes from \<open>enumerate\<close>, so it is
  a natural number.
\<close>

definition digit_char :: "nat \<Rightarrow> char" where
  "digit_char d = ''0123456789'' ! d"

function str_nat :: "nat \<Rightarrow> string" where
  "str_nat n = (if n < 10 then [digit_char n] else str_nat (n div 10) @ [digit_char (n mod 10)])"
  by pat_completeness auto
termination
  by (relation "measure (\<lambda>n. n)") auto

declare str_nat.simps [simp del]

definition format_02d :: "nat \<Rightarrow> string" where
  "format_02d n = (let s = str_nat n in replicate (2 - length s) (CHR ''0'') @ s)"

section \<open>Parsed files\<close>

text \<open>
  The three parsers return nested Python values: dictionaries with string keys, lists,
  strings and scalars. A dictionary is an association list in key order; a key is looked
  up with \<open>map_of\<close>. \<open>PScalar\<close> stands for a value that is neither a string nor a
  container (a number, \<open>None\<close>); the conversion code never looks inside one, so its type
  is left open.
\<close>

datatype 'a pyval =
    PScalar 'a
  | PStr string
  | PList "'a pyval list"
  | PDict "(string \<times> 'a pyval) list"

datatype error =
    ValueError string
  | UnboundLocalError string
  | KeyError string
  | IndexError
  | TypeError
  | AttributeError
  | FileNotFoundError
  | ParseError string

definition bindE :: "error + 'b \<Rightarrow> ('b \<Rightarrow> error + 'c) \<Rightarrow> error + 'c" where
  "bindE m f = (case m of Inl e \<Rightarrow> Inl e | Inr x \<Rightarrow> f x)"

text \<open>\<open>v[k]\<close> for a string \<open>k\<close>.\<close>

fun getitem :: "'a pyval \<Rightarrow> string \<Rightarrow> error + 'a pyval" where
  "getitem (PDict kvs) k = (case map_of kvs k of Some v \<Rightarrow> Inr v | None \<Rightarrow> Inl (KeyError k))"
| "getitem (PList xs) k = Inl TypeError"
| "getitem (PStr s) k = Inl TypeError"
| "getitem (PScalar a) k = Inl TypeError"

text \<open>\<open>v[n]\<close> for a non-negative integer \<open>n\<close>; a dictionary with string keys has no key \<open>n\<close>.\<close>

fun getindex :: "'a pyval \<Rightarrow> nat \<Rightarrow> error + 'a pyval" where
  "getindex (PList xs) n = (if n < length xs then Inr (xs ! n) else Inl IndexError)"
| "getindex (PStr s) n = (if n < length s then Inr (PStr [s ! n]) else Inl IndexError)"
| "getindex (PDict kvs) n = Inl (KeyError (str_nat n))"
| "getindex (PScalar a) n = Inl TypeError"

text \<open>\<open>k in v\<close> for a string \<open>k\<close>: a key of a dictionary, an element of a list, a substring.\<close>

fun contains :: "'a pyval \<Rightarrow> string \<Rightarrow> error + bool" where
  "contains (PDict kvs) k = Inr (k \<in> set (map fst kvs))"
| "contains (PList xs) k = Inr (PStr k \<in> set xs)"
| "contains (PStr s) k = Inr (sublist k s)"
| "contains (PScalar a) k = Inl TypeError"

text \<open>\<open>v.keys()\<close>.\<close>

fun keys :: "'a pyval \<Rightarrow> error + string list" where
  "keys (PDict kvs) = Inr (map fst kvs)"
| "keys (PList xs) = Inl AttributeError"
| "keys (PStr s) = Inl AttributeError"
| "keys (PScalar a) = Inl AttributeError"

text \<open>The values a \<open>for\<close> loop over \<open>v\<close> visits.\<close>

fun iterate :: "'a pyval \<Rightarrow> error + 'a pyval list" where
  "iterate (PList xs) = Inr xs"
| "iterate (PDict kvs) = Inr (map (\<lambda>k. PStr k) (remdups (map fst kvs)))"
| "iterate (PStr s) = Inr (map (\<lambda>c. PStr [c]) s)"
| "iterate (PScalar a) = Inl TypeError"

section \<open>The collaborators outside \<open>main.py\<close>\<close>

text \<open>
  The calls by which \<open>main.py\<close> writes files:
  \<^item> \<open>To_csv df p f i\<close> is \<open>df.to_csv(p, float_format=f, index=i)\<close>;
  \<^item> \<open>To_excel df p i\<close> is \<open>df.to_excel(p, index=i)\<close>;
  \<^item> \<open>ExcelWriter_enter p\<close> is \<open>pd.ExcelWriter(p)\<close> at the head of a \<open>with\<close> block, and
    \<open>ExcelWriter_exit p\<close> closes that writer at the end of the block;
  \<^item> \<open>To_excel_sheet df p s i\<close> is \<open>df.to_excel(writer, sheet_name=s, index=i)\<close> for the
    writer opened on \<open>p\<close>.
\<close>

datatype 'df call =
    To_csv 'df string string bool
  | To_excel 'df string bool
  | ExcelWriter_enter string
  | To_excel_sheet 'df string string bool
  | ExcelWriter_exit string

text \<open>
  \<open>main.py\<close> imports \<open>parse_mpt\<close>, \<open>parse_mpr\<close> and \<open>parse_mps\<close> from its sibling modules,
  builds tables with \<open>pandas.DataFrame.from_dict\<close> and writes them with pandas. None of
  these is defined in \<open>main.py\<close>, so each is a parameter: a function that returns a value
  or raises. \<open>parse_mps\<close> receives the keyword argument \<open>load_data\<close> when the caller passes
  it. \<open>'df\<close> is the type of pandas DataFrames. \<open>pandas log c\<close> is the outcome of the
  writing call \<open>c\<close> made after the calls in \<open>log\<close> have returned: \<open>None\<close> when \<open>c\<close>
  returns, \<open>Some e\<close> when it raises \<open>e\<close>. What a call that returns puts into the file is
  not part of this model.
\<close>

record ('a, 'df) library =
  parse_mpt :: "string \<Rightarrow> error + 'a pyval"
  parse_mpr :: "string \<Rightarrow> error + 'a pyval"
  parse_mps :: "string \<Rightarrow> bool option \<Rightarrow> error + 'a pyval"
  from_dict :: "'a pyval \<Rightarrow> error + 'df"
  pandas :: "'df call list \<Rightarrow> 'df call \<Rightarrow> error option"

section \<open>\<open>parse\<close>\<close>

text \<open>
  The local variable \<open>parsed\<close> is bound by one of the three branches or not at all;
  \<open>return parsed\<close> reads it, and reading an unbound local raises \<open>UnboundLocalError\<close>.
\<close>

definition parse :: "('a, 'df) library \<Rightarrow> string \<Rightarrow> error + 'a pyval" where
  "parse L path =
     (let ext = snd (splitext path);
          parsed = (if ext = ''.mpt'' then map_sum id Some (parse_mpt L path)
                    else if ext = ''.mpr'' then map_sum id Some (parse_mpr L path)
                    else if ext = ''.mps'' then map_sum id Some (parse_mps L path None)
                    else Inr None)
      in bindE parsed
           (\<lambda>parsed. case parsed of
                        None \<Rightarrow> Inl (UnboundLocalError ''parsed'')
                      | Some v \<Rightarrow> Inr v))"

section \<open>\<open>to_df\<close>\<close>

text \<open>The value \<open>to_df\<close> returns: one DataFrame, or a list of them.\<close>

datatype 'df frames = Frame 'df | Frames "'df list"

text \<open>
  One pass through the body of the loop over \<open>mps['techniques']\<close>; \<open>df\<close> is the list built
  so far, and \<open>continue\<close> leaves it as it is.
\<close>

definition technique_step :: "('a, 'df) library \<Rightarrow> 'a pyval \<Rightarrow> 'df list \<Rightarrow> error + 'df list" where
  "technique_step L technique df =
     bindE (contains technique ''data'') (\<lambda>found.
       if \<not> found then Inr df
       else
         bindE (getitem technique ''data'') (\<lambda>data.
         bindE (keys data) (\<lambda>ks.
           if ''mpt'' \<in> set ks then
             bindE (getitem data ''mpt'') (\<lambda>mpt.
             bindE (getitem mpt ''datapoints'') (\<lambda>mpt_records.
             bindE (from_dict L mpt_records) (\<lambda>mpt_df.
               Inr (df @ [mpt_df]))))
           else
             bindE (keys data) (\<lambda>ks.
               if ''mpr'' \<in> set ks then
                 bindE (getitem data ''mpr'') (\<lambda>mpr.
                 bindE (getindex mpr 1) (\<lambda>module.
                 bindE (getitem module ''data'') (\<lambda>payload.
                 bindE (getitem payload ''datapoints'') (\<lambda>mpr_records.
                 bindE (from_dict L mpr_records) (\<lambda>mpr_df.
                   Inr (df @ [mpr_df]))))))
               else Inr df))))"

fun techniques_loop :: "('a, 'df) library \<Rightarrow> 'a pyval list \<Rightarrow> 'df list \<Rightarrow> error + 'df list" where
  "techniques_loop L [] df = Inr df"
| "techniques_loop L (technique # rest) df =
     bindE (technique_step L technique df) (techniques_loop L rest)"

definition to_df :: "('a, 'df) library \<Rightarrow> string \<Rightarrow> error + 'df frames" where
  "to_df L path =
     (let ext = snd (splitext path) in
      if ext = ''.mpt'' then
        bindE (parse_mpt L path) (\<lambda>mpt.
        bindE (getitem mpt ''datapoints'') (\<lambda>mpt_records.
        bindE (from_dict L mpt_records) (\<lambda>df.
          Inr (Frame df))))
      else if ext = ''.mpr'' then
        bindE (parse_mpr L path) (\<lambda>mpr.
        bindE (getindex mpr 1) (\<lambda>module.
        bindE (getitem module ''data'') (\<lambda>payload.
        bindE (getitem payload ''datapoints'') (\<lambda>mpr_records.
        bindE (from_dict L mpr_records) (\<lambda>df.
          Inr (Frame df))))))
      else if ext = ''.mps'' then
        bindE (parse_mps L path (Some True)) (\<lambda>mps.
        bindE (getitem mps ''techniques'') (\<lambda>techniques.
        bindE (iterate techniques) (\<lambda>techniques.
        bindE (techniques_loop L techniques []) (\<lambda>df.
          Inr (Frames df)))))
      else Inl (ValueError (''Unrecognized file extension: '' @ ext)))"

section \<open>Writing\<close>

text \<open>
  The writers pass a log of the calls that have returned. \<open>perform L c\<close> makes the call
  \<open>c\<close>: when it returns it joins the log, when it raises the log stays as it is and the
  error is the result. \<open>then_do m k\<close> is one statement after another: \<open>k\<close> runs when \<open>m\<close>
  has not raised.
\<close>

type_synonym 'df writes = "'df call list \<Rightarrow> (error + unit) \<times> 'df call list"

definition perform :: "('a, 'df) library \<Rightarrow> 'df call \<Rightarrow> 'df writes" where
  "perform L c log =
     (case pandas L log c of None \<Rightarrow> (Inr (), log @ [c]) | Some e \<Rightarrow> (Inl e, log))"

definition no_call :: "'df writes" where
  "no_call log = (Inr (), log)"

definition then_do :: "'df writes \<Rightarrow> 'df writes \<Rightarrow> 'df writes" where
  "then_do m k log = (case m log of (Inl e, log1) \<Rightarrow> (Inl e, log1) | (Inr u, log1) \<Rightarrow> k log1)"

text \<open>
  The truth value of the optional argument in \<open>if csv_path:\<close>; \<open>None\<close> and the empty
  string are false.
\<close>

fun truthy :: "string option \<Rightarrow> bool" where
  "truthy None = False"
| "truthy (Some s) = (s \<noteq> [])"

text \<open>
  The loop \<open>for i, df in enumerate(df)\<close> of \<open>to_csv\<close>; \<open>i\<close> is the counter of
  \<open>enumerate\<close>. A call that raises ends the loop.
\<close>

fun to_csv_loop ::
  "('a, 'df) library \<Rightarrow> string \<Rightarrow> string option \<Rightarrow> nat \<Rightarrow> 'df list \<Rightarrow> 'df writes" where
  "to_csv_loop L path csv_path i [] log = (Inr (), log)"
| "to_csv_loop L path csv_path i (df # rest) log =
     then_do
       (case csv_path of
          Some p \<Rightarrow>
            if truthy csv_path
            then perform L (To_csv df (construct_path p (''_'' @ format_02d (i + 1) @ ''.csv''))
                              ''%.15f'' False)
            else no_call
        | None \<Rightarrow> no_call)
       (then_do
          (perform L (To_csv df (construct_path path (''_'' @ format_02d (i + 1) @ ''.csv''))
                        ''%.15f'' False))
          (to_csv_loop L path csv_path (i + 1) rest))
       log"

definition to_csv :: "('a, 'df) library \<Rightarrow> string \<Rightarrow> string option \<Rightarrow> 'df writes" where
  "to_csv L path csv_path log =
     (case to_df L path of
        Inl e \<Rightarrow> (Inl e, log)
      | Inr (Frame df) \<Rightarrow>
          (let csv_path = (case csv_path of None \<Rightarrow> construct_path path ''.csv'' | Some p \<Rightarrow> p)
           in perform L (To_csv df csv_path ''%.15f'' False) log)
      | Inr (Frames dfs) \<Rightarrow> to_csv_loop L path csv_path 0 dfs log)"

text \<open>The loop inside the \<open>with\<close> block of \<open>to_xlsx\<close>.\<close>

fun to_xlsx_loop :: "('a, 'df) library \<Rightarrow> string \<Rightarrow> nat \<Rightarrow> 'df list \<Rightarrow> 'df writes" where
  "to_xlsx_loop L xlsx_path i [] log = (Inr (), log)"
| "to_xlsx_loop L xlsx_path i (df # rest) log =
     then_do (perform L (To_excel_sheet df xlsx_path (format_02d (i + 1)) False))
       (to_xlsx_loop L xlsx_path (i + 1) rest) log"

text \<open>
  \<open>with pd.ExcelWriter(xlsx_path) as writer: body\<close>. When the constructor raises, nothing
  else happens. Otherwise the body runs and the writer is closed, also when the body has
  raised; an error of closing is the result, and otherwise the outcome of the body is.
\<close>

definition with_ExcelWriter :: "('a, 'df) library \<Rightarrow> string \<Rightarrow> 'df writes \<Rightarrow> 'df writes" where
  "with_ExcelWriter L xlsx_path body log =
     (case perform L (ExcelWriter_enter xlsx_path) log of
        (Inl e, log1) \<Rightarrow> (Inl e, log1)
      | (Inr u, log1) \<Rightarrow>
          (case body log1 of
             (r, log2) \<Rightarrow>
               (case perform L (ExcelWriter_exit xlsx_path) log2 of
                  (Inl e, log3) \<Rightarrow> (Inl e, log3)
                | (Inr u, log3) \<Rightarrow> (r, log3))))"

definition to_xlsx :: "('a, 'df) library \<Rightarrow> string \<Rightarrow> string option \<Rightarrow> 'df writes" where
  "to_xlsx L path xlsx_path log =
     (case to_df L path of
        Inl e \<Rightarrow> (Inl e, log)
      | Inr df \<Rightarrow>
          (let xlsx_path = (case xlsx_path of None \<Rightarrow> construct_path path ''.xlsx'' | Some p \<Rightarrow> p)
           in case df of
                Frame df \<Rightarrow> perform L (To_excel df xlsx_path False) log
              | Frames dfs \<Rightarrow>
                  with_ExcelWriter L xlsx_path (to_xlsx_loop L xlsx_path 0 dfs) log))"

section \<open>Names used to state the properties\<close>

text \<open>
  The specification calls \<open>_construct_path\<close> \<open>derive\<close>, and calls \<open>deriveIndexed\<close> what
  \<open>to_csv\<close> writes inline as \<open>_construct_path(p, f'_{i+1:02d}.csv')\<close>: the index goes in
  front of the new extension, after an underscore.
\<close>

definition deriveIndexed :: "string \<Rightarrow> nat \<Rightarrow> string \<Rightarrow> string" where
  "deriveIndexed path index ext = construct_path path (''_'' @ format_02d index @ ext)"

text \<open>
  The table of a text result and of a binary result, as the specification describes them:
  built from \<open>datapoints\<close>, respectively from the \<open>datapoints\<close> in the payload of the data
  module, which the parser puts second in the list of modules.
\<close>

definition text_table :: "('a, 'df) library \<Rightarrow> 'a pyval \<Rightarrow> error + 'df" where
  "text_table L mpt = bindE (getitem mpt ''datapoints'') (from_dict L)"

definition binary_table :: "('a, 'df) library \<Rightarrow> 'a pyval \<Rightarrow> error + 'df" where
  "binary_table L mpr =
     bindE (getindex mpr 1) (\<lambda>module.
     bindE (getitem module ''data'') (\<lambda>payload.
     bindE (getitem payload ''datapoints'') (from_dict L)))"

text \<open>A technique has data when the test \<open>'data' not in technique\<close> does not skip it.\<close>

definition has_data :: "'a pyval \<Rightarrow> bool" where
  "has_data technique = (contains technique ''data'' \<noteq> Inr False)"

text \<open>
  A technique has no usable data when it is a dictionary and either has no \<open>data\<close> entry,
  or its \<open>data\<close> entry is a dictionary with neither an \<open>mpt\<close> nor an \<open>mpr\<close> key.
\<close>

fun no_usable_data :: "'a pyval \<Rightarrow> bool" where
  "no_usable_data (PDict kvs) =
     (case map_of kvs ''data'' of
        None \<Rightarrow> True
      | Some (PDict d) \<Rightarrow> ''mpt'' \<notin> set (map fst d) \<and> ''mpr'' \<notin> set (map fst d)
      | Some v \<Rightarrow> False)"
| "no_usable_data v = False"

text \<open>
  A list of calls made one after the other, up to the first that raises; and the
  condition that none of them raises, each asked after the ones before it have returned.
\<close>

fun perform_all :: "('a, 'df) library \<Rightarrow> 'df call list \<Rightarrow> 'df writes" where
  "perform_all L [] log = (Inr (), log)"
| "perform_all L (c # cs) log = then_do (perform L c) (perform_all L cs) log"

fun returns_all :: "('a, 'df) library \<Rightarrow> 'df call list \<Rightarrow> 'df call list \<Rightarrow> bool" where
  "returns_all L [] log = True"
| "returns_all L (c # cs) log = (pandas L log c = None \<and> returns_all L cs (log @ [c]))"

text \<open>
  Outcomes of the writing calls for the examples: \<open>to_csv\<close> raises on the empty path, a
  workbook needs a path with the extension \<open>.xlsx\<close>, and closing a writer raises when no
  sheet has been written into it.
\<close>

fun is_sheet_of :: "string \<Rightarrow> 'df call \<Rightarrow> bool" where
  "is_sheet_of p (To_excel_sheet df q s i) = (q = p)"
| "is_sheet_of p c = False"

fun example_pandas :: "'df call list \<Rightarrow> 'df call \<Rightarrow> error option" where
  "example_pandas log (To_csv df p f i) = (if p = [] then Some FileNotFoundError else None)"
| "example_pandas log (To_excel df p i) =
     (if snd (splitext p) = ''.xlsx'' then None else Some (ValueError ''No engine for filetype''))"
| "example_pandas log (ExcelWriter_enter p) =
     (if snd (splitext p) = ''.xlsx'' then None else Some (ValueError ''No engine for filetype''))"
| "example_pandas log (To_excel_sheet df p s i) = None"
| "example_pandas log (ExcelWriter_exit p) =
     (if list_ex (is_sheet_of p) log then None else Some IndexError)"

text \<open>
  A library for the examples: every file parses to the value given, and a DataFrame is
  represented by the records it is built from.
\<close>

definition example_library :: "int pyval \<Rightarrow> (int, int pyval) library" where
  "example_library parsed =
     \<lparr>parse_mpt = (\<lambda>path. Inr parsed),
      parse_mpr = (\<lambda>path. Inr parsed),
      parse_mps = (\<lambda>path load_data. Inr parsed),
      from_dict = (\<lambda>records. Inr records),
      pandas = example_pandas\<rparr>"

definition example_records :: "int \<Rightarrow> int pyval" where
  "example_records n =
     PList [PDict [(''time'', PScalar 0), (''voltage'', PScalar n)],
            PDict [(''time'', PScalar 1), (''voltage'', PScalar (n + 1))]]"

definition example_mpt :: "int \<Rightarrow> int pyval" where
  "example_mpt n = PDict [(''header'', PList []), (''datapoints'', example_records n)]"

definition example_mpr :: "int \<Rightarrow> int pyval" where
  "example_mpr n =
     PList [PDict [(''header'', PDict [])],
            PDict [(''header'', PDict []),
                   (''data'', PDict [(''n_datapoints'', PScalar 2),
                                     (''datapoints'', example_records n)])]]"

text \<open>The tables of a settings result: the loop of \<open>to_df\<close> over its techniques.\<close>

definition settings_tables :: "('a, 'df) library \<Rightarrow> 'a pyval \<Rightarrow> error + 'df list" where
  "settings_tables L mps =
     bindE (getitem mps ''techniques'') (\<lambda>techniques.
     bindE (iterate techniques) (\<lambda>techniques. techniques_loop L techniques []))"

text \<open>
  A settings result with three techniques: the first has no data, the second has a binary
  and a text result, the third a binary result only.
\<close>

definition example_mps :: "int pyval" where
  "example_mps =
     PDict [(''settings'', PDict []),
            (''techniques'', PList [
               PDict [(''technique'', PStr ''OCV'')],
               PDict [(''technique'', PStr ''CA''),
                      (''data'', PDict [(''mpr'', example_mpr 10), (''mpt'', example_mpt 20)])],
               PDict [(''technique'', PStr ''CP''),
                      (''data'', PDict [(''mpr'', example_mpr 30)])]])]"

text \<open>A settings result in which no technique has usable data.\<close>

definition example_mps_unusable :: "int pyval" where
  "example_mps_unusable =
     PDict [(''settings'', PDict []),
            (''techniques'', PList [
               PDict [(''technique'', PStr ''OCV''), (''data'', PDict [])],
               PDict [(''technique'', PStr ''CA''),
                      (''data'', PDict [(''csv'', example_mpt 1)])],
               PDict [(''technique'', PStr ''CP'')]])]"

section \<open>Evaluation lemmas\<close>

lemma bindE_simps [simp]:
  "bindE (Inl e) f = Inl e"
  "bindE (Inr x) f = f x"
  by (simp_all add: bindE_def)

lemma splitext_examples:
  "splitext ''run.txt'' = (''run'', ''.txt'')"
  "splitext ''run.MPT'' = (''run'', ''.MPT'')"
  "splitext ''run.mpt'' = (''run'', ''.mpt'')"
  "splitext ''run.mpr'' = (''run'', ''.mpr'')"
  "splitext ''run.mps'' = (''run'', ''.mps'')"
  by code_simp+

lemma bindE_map_sum: "bindE m (\<lambda>x. Inr (g x)) = map_sum id g m"
  by (cases m) simp_all

lemma map_sum_eq_Inr: "map_sum f g m = Inr r \<longleftrightarrow> (\<exists>x. m = Inr x \<and> r = g x)"
  by (cases m) auto

lemma bindE_assoc: "bindE (bindE m f) g = bindE m (\<lambda>x. bindE (f x) g)"
  by (cases m) simp_all

lemma to_df_mpt:
  "snd (splitext path) = ''.mpt'' \<Longrightarrow>
   to_df L path = bindE (parse_mpt L path) (\<lambda>mpt. map_sum id Frame (text_table L mpt))"
  by (simp add: to_df_def text_table_def bindE_assoc flip: bindE_map_sum)

lemma to_df_mpr:
  "snd (splitext path) = ''.mpr'' \<Longrightarrow>
   to_df L path = bindE (parse_mpr L path) (\<lambda>mpr. map_sum id Frame (binary_table L mpr))"
  by (simp add: to_df_def binary_table_def bindE_assoc flip: bindE_map_sum)

lemma to_df_mps:
  "snd (splitext path) = ''.mps'' \<Longrightarrow>
   to_df L path =
     bindE (parse_mps L path (Some True)) (\<lambda>mps. map_sum id Frames (settings_tables L mps))"
  by (simp add: to_df_def settings_tables_def bindE_assoc flip: bindE_map_sum)

lemma to_df_unrecognized:
  "snd (splitext path) \<noteq> ''.mpt'' \<Longrightarrow> snd (splitext path) \<noteq> ''.mpr'' \<Longrightarrow>
   snd (splitext path) \<noteq> ''.mps'' \<Longrightarrow>
   to_df L path = Inl (ValueError (''Unrecognized file extension: '' @ snd (splitext path)))"
  by (simp add: to_df_def)

lemmas example_defs =
  example_library_def example_records_def example_mpt_def example_mpr_def example_mps_def

lemma perform_returns: "pandas L log c = None \<Longrightarrow> perform L c log = (Inr (), log @ [c])"
  by (simp add: perform_def)

lemma perform_raises: "pandas L log c = Some e \<Longrightarrow> perform L c log = (Inl e, log)"
  by (simp add: perform_def)

lemma then_do_no_call: "then_do no_call k log = k log"
  by (simp add: then_do_def no_call_def)

lemma then_do_assoc: "then_do (then_do a b) c log = then_do a (then_do b c) log"
  by (simp add: then_do_def split: prod.splits sum.splits)

lemma then_do_cong:
  "m = m' \<Longrightarrow> (\<And>log. k log = k' log) \<Longrightarrow> then_do m k log = then_do m' k' log"
  by (simp add: then_do_def split: prod.splits sum.splits)

lemma perform_all_single: "perform_all L [c] log = perform L c log"
  by (simp add: then_do_def split: prod.splits sum.splits)

lemma perform_all_append:
  "perform_all L (xs @ ys) log = then_do (perform_all L xs) (perform_all L ys) log"
proof (induction xs arbitrary: log)
  case Nil
  show ?case by (simp add: then_do_def)
next
  case (Cons c xs)
  have "perform_all L ((c # xs) @ ys) log
          = then_do (perform L c) (then_do (perform_all L xs) (perform_all L ys)) log"
    by (simp add: Cons.IH cong: then_do_cong)
  also have "\<dots> = then_do (then_do (perform L c) (perform_all L xs)) (perform_all L ys) log"
    by (simp add: then_do_assoc)
  also have "\<dots> = then_do (perform_all L (c # xs)) (perform_all L ys) log"
    by (simp add: then_do_def)
  finally show ?case .
qed

lemma to_csv_loop_eq:
  "to_csv_loop L path csv_path i dfs log =
     perform_all L (concat (map (\<lambda>(k, df).
        (case csv_path of
           Some p \<Rightarrow> if p \<noteq> [] then [To_csv df (deriveIndexed p (k + 1) ''.csv'') ''%.15f'' False]
                     else []
         | None \<Rightarrow> [])
        @ [To_csv df (deriveIndexed path (k + 1) ''.csv'') ''%.15f'' False]) (enumerate i dfs)))
       log"
proof (induction dfs arbitrary: i log)
  case Nil
  show ?case by simp
next
  case (Cons df rest)
  show ?case
    by (simp add: Cons.IH deriveIndexed_def then_do_no_call
        split: option.splits cong: then_do_cong)
qed

lemma to_xlsx_loop_eq:
  "to_xlsx_loop L xlsx_path i dfs log =
     perform_all L
       (map (\<lambda>(k, df). To_excel_sheet df xlsx_path (format_02d (k + 1)) False) (enumerate i dfs))
       log"
  by (induction dfs arbitrary: i log) (simp_all cong: then_do_cong)

lemma returns_all_append:
  "returns_all L (xs @ ys) log \<longleftrightarrow> returns_all L xs log \<and> returns_all L ys (log @ xs)"
  by (induction xs arbitrary: log) auto

lemma returns_all_perform_all:
  "returns_all L cs log \<Longrightarrow> perform_all L cs log = (Inr (), log @ cs)"
  by (induction cs arbitrary: log) (simp_all add: then_do_def perform_returns)

lemma perform_all_log:
  "perform_all L cs log = (r, log') \<Longrightarrow> \<exists>new. log' = log @ new \<and> set new \<subseteq> set cs"
proof (induction cs arbitrary: log)
  case Nil
  then show ?case by simp
next
  case (Cons c cs)
  show ?case
  proof (cases "pandas L log c")
    case None
    then have "perform_all L cs (log @ [c]) = (r, log')"
      using Cons.prems by (simp add: then_do_def perform_returns)
    from Cons.IH [OF this] obtain new where "log' = (log @ [c]) @ new" "set new \<subseteq> set cs"
      by blast
    then have "log' = log @ (c # new) \<and> set (c # new) \<subseteq> set (c # cs)"
      by auto
    then show ?thesis by blast
  next
    case (Some e)
    then have "log' = log @ []"
      using Cons.prems by (simp add: then_do_def perform_raises)
    then show ?thesis by fastforce
  qed
qed

lemma example_paths:
  "construct_path ''run.mpt'' ''.csv'' = ''run.csv''"
  "construct_path ''run.mps'' ''.xlsx'' = ''run.xlsx''"
  "splitext ''run.xlsx'' = (''run'', ''.xlsx'')"
  "splitext ''out/book.xlsx'' = (''out/book'', ''.xlsx'')"
  "splitext ''out/table.dat'' = (''out/table'', ''.dat'')"
  by code_simp+

lemma digit_char_0: "digit_char 0 = CHR ''0''"
  by (simp add: digit_char_def)

lemma format_02d_two_digits:
  assumes "n < 100"
  shows "format_02d n = [digit_char (n div 10), digit_char (n mod 10)]"
proof (cases "n < 10")
  case True
  then show ?thesis
    by (simp add: format_02d_def str_nat.simps [of n] digit_char_0)
next
  case False
  then have "n div 10 < 10" using assms by simp
  then show ?thesis
    using False by (simp add: format_02d_def str_nat.simps [of n] str_nat.simps [of "n div 10"])
qed

lemma example_mps_to_df:
  "to_df (example_library example_mps) ''run.mps''
     = Inr (Frames [example_records 20, example_records 30])"
  by (simp add: to_df_def splitext_examples example_defs technique_step_def)

lemma deriveIndexed_examples:
  "deriveIndexed ''run.mps'' (Suc 0) ''.csv'' = ''run_01.csv''"
  "deriveIndexed ''run.mps'' (Suc (Suc 0)) ''.csv'' = ''run_02.csv''"
  "deriveIndexed ''out/table.dat'' (Suc 0) ''.csv'' = ''out/table_01.csv''"
  "deriveIndexed ''out/table.dat'' (Suc (Suc 0)) ''.csv'' = ''out/table_02.csv''"
  by code_simp+

section \<open>\<open>parse\<close> on an unrecognised extension\<close>

text \<open>
  C9. When the extension of the path is none of \<open>.mpt\<close>, \<open>.mpr\<close>, \<open>.mps\<close>, \<open>parse\<close> binds
  \<open>parsed\<close> in no branch, and \<open>return parsed\<close> raises \<open>UnboundLocalError\<close> for that
  variable: \<open>parse\<close> returns no value and raises no \<open>ValueError\<close>, whatever the parsers
  are.
\<close>

theorem parse_unrecognized_unbound:
  assumes "snd (splitext path) \<noteq> ''.mpt''"
    and "snd (splitext path) \<noteq> ''.mpr''"
    and "snd (splitext path) \<noteq> ''.mps''"
  shows "parse L path = Inl (UnboundLocalError ''parsed'')
         \<and> (\<forall>v. parse L path \<noteq> Inr v)
         \<and> (\<forall>m. parse L path \<noteq> Inl (ValueError m))"
  using assms by (simp add: parse_def)

theorem parse_unrecognized_unbound_witness:
  "snd (splitext ''run.txt'') \<noteq> ''.mpt'' \<and> snd (splitext ''run.txt'') \<noteq> ''.mpr''
   \<and> snd (splitext ''run.txt'') \<noteq> ''.mps''
   \<and> parse (example_library (example_mpt 3)) ''run.txt'' = Inl (UnboundLocalError ''parsed'')"
  using parse_unrecognized_unbound [of "''run.txt''" "example_library (example_mpt 3)"]
  by (simp add: splitext_examples)

section \<open>Dispatch on the extension\<close>

text \<open>
  C4. \<open>to_df\<close> compares the extension that \<open>os.path.splitext\<close> returns with \<open>.mpt\<close>,
  \<open>.mpr\<close> and \<open>.mps\<close> as strings, so the comparison is case-sensitive. For any other
  extension it raises the error the code has for an unsupported format,
  \<open>ValueError("Unrecognized file extension: ...")\<close>; \<open>to_csv\<close> and \<open>to_xlsx\<close> then raise
  the same error and leave the log of writes as it was. For each of the three extensions
  \<open>to_df\<close> converts what the parser of that format returns, and replacing the two other
  parsers by any functions \<open>f\<close>, \<open>g\<close> does not change its result.
\<close>

theorem extract_dispatch:
  "(snd (splitext path) \<noteq> ''.mpt'' \<and> snd (splitext path) \<noteq> ''.mpr''
      \<and> snd (splitext path) \<noteq> ''.mps'' \<longrightarrow>
      to_df L path = Inl (ValueError (''Unrecognized file extension: '' @ snd (splitext path)))
      \<and> to_csv L path csv_path log =
          (Inl (ValueError (''Unrecognized file extension: '' @ snd (splitext path))), log)
      \<and> to_xlsx L path xlsx_path log =
          (Inl (ValueError (''Unrecognized file extension: '' @ snd (splitext path))), log))
   \<and> (snd (splitext path) = ''.mpt'' \<longrightarrow>
        to_df L path = bindE (parse_mpt L path) (\<lambda>mpt. map_sum id Frame (text_table L mpt))
        \<and> to_df (L\<lparr>parse_mpr := f, parse_mps := g\<rparr>) path = to_df L path)
   \<and> (snd (splitext path) = ''.mpr'' \<longrightarrow>
        to_df L path = bindE (parse_mpr L path) (\<lambda>mpr. map_sum id Frame (binary_table L mpr))
        \<and> to_df (L\<lparr>parse_mpt := f, parse_mps := g\<rparr>) path = to_df L path)
   \<and> (snd (splitext path) = ''.mps'' \<longrightarrow>
        to_df L path =
          bindE (parse_mps L path (Some True)) (\<lambda>mps. map_sum id Frames (settings_tables L mps))
        \<and> to_df (L\<lparr>parse_mpt := f, parse_mpr := f'\<rparr>) path = to_df L path)"
proof (intro conjI impI)
  assume u: "snd (splitext path) \<noteq> ''.mpt'' \<and> snd (splitext path) \<noteq> ''.mpr''
      \<and> snd (splitext path) \<noteq> ''.mps''"
  then show e: "to_df L path = Inl (ValueError (''Unrecognized file extension: '' @ snd (splitext path)))"
    by (simp add: to_df_unrecognized)
  show "to_csv L path csv_path log =
          (Inl (ValueError (''Unrecognized file extension: '' @ snd (splitext path))), log)"
    by (simp add: to_csv_def e)
  show "to_xlsx L path xlsx_path log =
          (Inl (ValueError (''Unrecognized file extension: '' @ snd (splitext path))), log)"
    by (simp add: to_xlsx_def e)
next
  assume t: "snd (splitext path) = ''.mpt''"
  then show "to_df L path = bindE (parse_mpt L path) (\<lambda>mpt. map_sum id Frame (text_table L mpt))"
    by (rule to_df_mpt)
  show "to_df (L\<lparr>parse_mpr := f, parse_mps := g\<rparr>) path = to_df L path"
    using t by (simp add: to_df_mpt text_table_def)
next
  assume t: "snd (splitext path) = ''.mpr''"
  then show "to_df L path = bindE (parse_mpr L path) (\<lambda>mpr. map_sum id Frame (binary_table L mpr))"
    by (rule to_df_mpr)
  show "to_df (L\<lparr>parse_mpt := f, parse_mps := g\<rparr>) path = to_df L path"
    using t by (simp add: to_df_mpr binary_table_def)
next
  assume t: "snd (splitext path) = ''.mps''"
  then show "to_df L path =
          bindE (parse_mps L path (Some True)) (\<lambda>mps. map_sum id Frames (settings_tables L mps))"
    by (rule to_df_mps)
  have step: "technique_step (L\<lparr>parse_mpt := f, parse_mpr := f'\<rparr>) = technique_step L"
    by (intro ext) (simp add: technique_step_def cong: if_cong)
  have loop: "techniques_loop (L\<lparr>parse_mpt := f, parse_mpr := f'\<rparr>) ts = techniques_loop L ts"
    for ts
  proof (induction ts)
    case Nil
    show ?case by (rule ext) simp
  next
    case (Cons t ts)
    show ?case by (rule ext) (simp add: step Cons.IH)
  qed
  show "to_df (L\<lparr>parse_mpt := f, parse_mpr := f'\<rparr>) path = to_df L path"
    using t by (simp add: to_df_mps settings_tables_def loop)
qed


theorem extract_dispatch_witness:
  "(snd (splitext ''run.MPT'') \<noteq> ''.mpt'' \<and> snd (splitext ''run.MPT'') \<noteq> ''.mpr''
      \<and> snd (splitext ''run.MPT'') \<noteq> ''.mps'')
   \<and> to_df (example_library (example_mpt 3)) ''run.MPT''
         = Inl (ValueError ''Unrecognized file extension: .MPT'')
   \<and> to_csv (example_library (example_mpt 3)) ''run.MPT'' None []
         = (Inl (ValueError ''Unrecognized file extension: .MPT''), [])
   \<and> to_xlsx (example_library (example_mpt 3)) ''run.MPT'' None []
         = (Inl (ValueError ''Unrecognized file extension: .MPT''), [])
   \<and> snd (splitext ''run.mpt'') = ''.mpt''
   \<and> to_df (example_library (example_mpt 3)) ''run.mpt'' = Inr (Frame (example_records 3))
   \<and> snd (splitext ''run.mpr'') = ''.mpr''
   \<and> to_df (example_library (example_mpr 4)) ''run.mpr'' = Inr (Frame (example_records 4))
   \<and> snd (splitext ''run.mps'') = ''.mps''
   \<and> to_df (example_library example_mps) ''run.mps''
         = Inr (Frames [example_records 20, example_records 30])"
  using extract_dispatch [of "''run.MPT''" "example_library (example_mpt 3)" None "[]" None]
    extract_dispatch [of "''run.mpt''" "example_library (example_mpt 3)"]
    extract_dispatch [of "''run.mpr''" "example_library (example_mpr 4)"]
    extract_dispatch [of "''run.mps''" "example_library example_mps"]
  by (simp add: splitext_examples example_defs text_table_def binary_table_def
      settings_tables_def technique_step_def)

section \<open>Writing one table as CSV\<close>

text \<open>
  C7. For a text or binary input on which \<open>to_df\<close> returns, the result is one DataFrame and
  \<open>to_csv\<close> makes exactly one \<open>to_csv\<close> call: to the explicit path when one is passed, to
  \<open>_construct_path(path, '.csv')\<close> otherwise. When that call returns, it is the one write
  added to the log; when it raises, \<open>to_csv\<close> raises the same error and nothing is added.
\<close>

theorem to_csv_single:
  assumes "snd (splitext path) = ''.mpt'' \<or> snd (splitext path) = ''.mpr''"
    and "to_df L path = Inr r"
  shows "\<exists>df. r = Frame df
           \<and> (pandas L log (To_csv df (case csv_path of
                                          None \<Rightarrow> construct_path path ''.csv''
                                        | Some p \<Rightarrow> p) ''%.15f'' False) = None \<longrightarrow>
                to_csv L path csv_path log =
                  (Inr (), log @ [To_csv df (case csv_path of
                                               None \<Rightarrow> construct_path path ''.csv''
                                             | Some p \<Rightarrow> p) ''%.15f'' False]))
           \<and> (\<forall>e. pandas L log (To_csv df (case csv_path of
                                               None \<Rightarrow> construct_path path ''.csv''
                                             | Some p \<Rightarrow> p) ''%.15f'' False) = Some e \<longrightarrow>
                to_csv L path csv_path log = (Inl e, log))"
proof -
  obtain df where r: "r = Frame df"
    using assms
    by (auto simp: to_df_mpt to_df_mpr bindE_def map_sum_eq_Inr split: sum.splits)
  show ?thesis
    using assms(2) by (simp add: to_csv_def r perform_def)
qed

theorem to_csv_single_witness:
  "(snd (splitext ''run.mpt'') = ''.mpt'' \<or> snd (splitext ''run.mpt'') = ''.mpr'')
   \<and> to_df (example_library (example_mpt 3)) ''run.mpt'' = Inr (Frame (example_records 3))
   \<and> pandas (example_library (example_mpt 3)) []
        (To_csv (example_records 3) ''run.csv'' ''%.15f'' False) = None
   \<and> to_csv (example_library (example_mpt 3)) ''run.mpt'' None []
        = (Inr (), [To_csv (example_records 3) ''run.csv'' ''%.15f'' False])
   \<and> pandas (example_library (example_mpt 3)) []
        (To_csv (example_records 3) ''out/table.dat'' ''%.15f'' False) = None
   \<and> to_csv (example_library (example_mpt 3)) ''run.mpt'' (Some ''out/table.dat'') []
        = (Inr (), [To_csv (example_records 3) ''out/table.dat'' ''%.15f'' False])
   \<and> pandas (example_library (example_mpt 3)) []
        (To_csv (example_records 3) [] ''%.15f'' False) = Some FileNotFoundError
   \<and> to_csv (example_library (example_mpt 3)) ''run.mpt'' (Some []) []
        = (Inl FileNotFoundError, [])"
proof -
  have e: "snd (splitext ''run.mpt'') = ''.mpt'' \<or> snd (splitext ''run.mpt'') = ''.mpr''"
    by (simp add: splitext_examples)
  have d: "to_df (example_library (example_mpt 3)) ''run.mpt'' = Inr (Frame (example_records 3))"
    by (simp add: to_df_def splitext_examples example_defs)
  have p: "pandas (example_library parsed) = example_pandas" for parsed
    by (simp add: example_library_def)
  show ?thesis
    using to_csv_single [OF e d, of "[]" None]
      to_csv_single [OF e d, of "[]" "Some ''out/table.dat''"]
      to_csv_single [OF e d, of "[]" "Some []"]
    by (simp add: e d p example_paths)
qed

section \<open>Writing several tables as CSV\<close>

text \<open>
  C3. When \<open>to_df\<close> returns a list, \<open>to_csv\<close> goes through it in order. Without an explicit
  path it writes the table at position \<open>k + 1\<close> once, to
  \<open>deriveIndexed path (k + 1) ''.csv''\<close>. With an explicit path \<open>p\<close> (a non-empty string,
  which is what \<open>if csv_path:\<close> tests) it writes every table twice: to
  \<open>deriveIndexed p (k + 1) ''.csv''\<close> and then to \<open>deriveIndexed path (k + 1) ''.csv''\<close>.
  \<open>to_csv\<close> makes these calls in this order up to the first that raises; when all of them
  return, they are what it adds to the log.
\<close>

theorem to_csv_multiple:
  assumes "to_df L path = Inr (Frames dfs)"
  shows "(csv_path = None \<longrightarrow>
            to_csv L path csv_path log =
              perform_all L (map (\<lambda>(k, df).
                  To_csv df (deriveIndexed path (k + 1) ''.csv'') ''%.15f'' False)
                (enumerate 0 dfs)) log
            \<and> (returns_all L (map (\<lambda>(k, df).
                  To_csv df (deriveIndexed path (k + 1) ''.csv'') ''%.15f'' False)
                (enumerate 0 dfs)) log \<longrightarrow>
               to_csv L path csv_path log =
                 (Inr (), log @ map (\<lambda>(k, df).
                     To_csv df (deriveIndexed path (k + 1) ''.csv'') ''%.15f'' False)
                   (enumerate 0 dfs))))
       \<and> (\<forall>p. csv_path = Some p \<and> p \<noteq> [] \<longrightarrow>
            to_csv L path csv_path log =
              perform_all L (concat (map (\<lambda>(k, df).
                  [To_csv df (deriveIndexed p (k + 1) ''.csv'') ''%.15f'' False,
                   To_csv df (deriveIndexed path (k + 1) ''.csv'') ''%.15f'' False])
                (enumerate 0 dfs))) log
            \<and> (returns_all L (concat (map (\<lambda>(k, df).
                  [To_csv df (deriveIndexed p (k + 1) ''.csv'') ''%.15f'' False,
                   To_csv df (deriveIndexed path (k + 1) ''.csv'') ''%.15f'' False])
                (enumerate 0 dfs))) log \<longrightarrow>
               to_csv L path csv_path log =
                 (Inr (), log @ concat (map (\<lambda>(k, df).
                     [To_csv df (deriveIndexed p (k + 1) ''.csv'') ''%.15f'' False,
                      To_csv df (deriveIndexed path (k + 1) ''.csv'') ''%.15f'' False])
                   (enumerate 0 dfs)))))"
proof -
  have none: "to_csv L path None log =
      perform_all L (map (\<lambda>(k, df).
          To_csv df (deriveIndexed path (k + 1) ''.csv'') ''%.15f'' False)
        (enumerate 0 dfs)) log"
    using assms by (simp add: to_csv_def to_csv_loop_eq concat_map_singleton case_prod_unfold)
  have some: "to_csv L path (Some p) log =
      perform_all L (concat (map (\<lambda>(k, df).
          [To_csv df (deriveIndexed p (k + 1) ''.csv'') ''%.15f'' False,
           To_csv df (deriveIndexed path (k + 1) ''.csv'') ''%.15f'' False])
        (enumerate 0 dfs))) log" if "p \<noteq> []" for p
    using assms that by (simp add: to_csv_def to_csv_loop_eq)
  show ?thesis
    using none some by (auto simp: returns_all_perform_all)
qed

theorem to_csv_multiple_witness:
  "to_df (example_library example_mps) ''run.mps''
     = Inr (Frames [example_records 20, example_records 30])
   \<and> returns_all (example_library example_mps)
       [To_csv (example_records 20) ''run_01.csv'' ''%.15f'' False,
        To_csv (example_records 30) ''run_02.csv'' ''%.15f'' False] []
   \<and> to_csv (example_library example_mps) ''run.mps'' None []
       = (Inr (), [To_csv (example_records 20) ''run_01.csv'' ''%.15f'' False,
                   To_csv (example_records 30) ''run_02.csv'' ''%.15f'' False])
   \<and> returns_all (example_library example_mps)
       [To_csv (example_records 20) ''out/table_01.csv'' ''%.15f'' False,
        To_csv (example_records 20) ''run_01.csv'' ''%.15f'' False,
        To_csv (example_records 30) ''out/table_02.csv'' ''%.15f'' False,
        To_csv (example_records 30) ''run_02.csv'' ''%.15f'' False] []
   \<and> to_csv (example_library example_mps) ''run.mps'' (Some ''out/table.dat'') []
       = (Inr (), [To_csv (example_records 20) ''out/table_01.csv'' ''%.15f'' False,
                   To_csv (example_records 20) ''run_01.csv'' ''%.15f'' False,
                   To_csv (example_records 30) ''out/table_02.csv'' ''%.15f'' False,
                   To_csv (example_records 30) ''run_02.csv'' ''%.15f'' False])"
proof -
  have p: "pandas (example_library parsed) = example_pandas" for parsed
    by (simp add: example_library_def)
  show ?thesis
    using to_csv_multiple [OF example_mps_to_df, of None "[]"]
      to_csv_multiple [OF example_mps_to_df, of "Some ''out/table.dat''" "[]"]
    by (simp add: example_mps_to_df deriveIndexed_examples enumerate_eq_zip upt_rec p
        then_do_def perform_def)
qed

text \<open>
  An explicit path that is the empty string is false in \<open>if csv_path:\<close>, so the loop
  treats it like no explicit path; and every call that \<open>to_csv\<close> adds to the log, on
  either branch, passes \<open>float_format='%.15f'\<close> and \<open>index=False\<close>.
\<close>

lemma empty_explicit_path_ignored:
  "to_csv_loop L path (Some []) i dfs log = to_csv_loop L path None i dfs log"
  by (simp add: to_csv_loop_eq)

lemma to_csv_call_arguments:
  assumes "to_csv L path csv_path log = (r, log')"
  shows "\<exists>new. log' = log @ new \<and> (\<forall>c \<in> set new. \<exists>df p. c = To_csv df p ''%.15f'' False)"
proof (cases "to_df L path")
  case (Inl e)
  then have "log' = log @ []"
    using assms by (simp add: to_csv_def)
  then show ?thesis by fastforce
next
  case (Inr fr)
  show ?thesis
  proof (cases fr)
    case (Frame df)
    then have "perform L (To_csv df (case csv_path of
                                       None \<Rightarrow> construct_path path ''.csv''
                                     | Some p \<Rightarrow> p) ''%.15f'' False) log = (r, log')"
      using assms Inr by (simp add: to_csv_def)
    then have "perform_all L [To_csv df (case csv_path of
                                           None \<Rightarrow> construct_path path ''.csv''
                                         | Some p \<Rightarrow> p) ''%.15f'' False] log = (r, log')"
      by (simp only: perform_all_single)
    from perform_all_log [OF this] show ?thesis
      by fastforce
  next
    case (Frames dfs)
    then have "to_csv_loop L path csv_path 0 dfs log = (r, log')"
      using assms Inr by (simp add: to_csv_def)
    from perform_all_log [OF this [unfolded to_csv_loop_eq]]
    obtain new where n: "log' = log @ new"
      and s: "set new \<subseteq> set (concat (map (\<lambda>(k, df).
        (case csv_path of
           Some p \<Rightarrow> if p \<noteq> [] then [To_csv df (deriveIndexed p (k + 1) ''.csv'') ''%.15f'' False]
                     else []
         | None \<Rightarrow> [])
        @ [To_csv df (deriveIndexed path (k + 1) ''.csv'') ''%.15f'' False]) (enumerate 0 dfs)))"
      by blast
    have "\<exists>df p. c = To_csv df p ''%.15f'' False" if "c \<in> set new" for c
      using that s by (auto split: option.splits if_splits)
    with n show ?thesis by blast
  qed
qed

section \<open>Writing several tables as XLSX\<close>

text \<open>
  C6. When \<open>to_df\<close> returns a list, \<open>to_xlsx\<close> opens one \<open>ExcelWriter\<close>, on the explicit
  path when one is passed and on \<open>_construct_path(path, '.xlsx')\<close> otherwise; when opening
  it raises, \<open>to_xlsx\<close> raises that error and nothing is written. When opening the writer,
  the sheet writes and closing the writer all return, \<open>to_xlsx\<close> has written exactly one
  workbook: one sheet per table in the order of the list, each with \<open>index=False\<close> and
  named by the position \<open>k + 1\<close> in the format \<open>02d\<close>. For positions below 100 that name is
  the two decimal digits of the position.
\<close>

theorem to_xlsx_multiple:
  assumes "to_df L path = Inr (Frames dfs)"
  shows "(returns_all L
            (ExcelWriter_enter (case xlsx_path of
                                  None \<Rightarrow> construct_path path ''.xlsx''
                                | Some p \<Rightarrow> p)
             # map (\<lambda>(k, df).
                 To_excel_sheet df (case xlsx_path of
                                      None \<Rightarrow> construct_path path ''.xlsx''
                                    | Some p \<Rightarrow> p) (format_02d (k + 1)) False)
               (enumerate 0 dfs)
             @ [ExcelWriter_exit (case xlsx_path of
                                    None \<Rightarrow> construct_path path ''.xlsx''
                                  | Some p \<Rightarrow> p)]) log \<longrightarrow>
          to_xlsx L path xlsx_path log =
           (Inr (),
            log @ [ExcelWriter_enter (case xlsx_path of
                                        None \<Rightarrow> construct_path path ''.xlsx''
                                      | Some p \<Rightarrow> p)]
                @ map (\<lambda>(k, df).
                    To_excel_sheet df (case xlsx_path of
                                         None \<Rightarrow> construct_path path ''.xlsx''
                                       | Some p \<Rightarrow> p) (format_02d (k + 1)) False)
                  (enumerate 0 dfs)
                @ [ExcelWriter_exit (case xlsx_path of
                                       None \<Rightarrow> construct_path path ''.xlsx''
                                     | Some p \<Rightarrow> p)]))
         \<and> (\<forall>e. pandas L log (ExcelWriter_enter (case xlsx_path of
                                                    None \<Rightarrow> construct_path path ''.xlsx''
                                                  | Some p \<Rightarrow> p)) = Some e \<longrightarrow>
               to_xlsx L path xlsx_path log = (Inl e, log))
         \<and> (\<forall>k < length dfs. k + 1 < 100 \<longrightarrow>
               format_02d (k + 1) = [digit_char ((k + 1) div 10), digit_char ((k + 1) mod 10)])"
proof -
  define wb where "wb = (case xlsx_path of None \<Rightarrow> construct_path path ''.xlsx'' | Some p \<Rightarrow> p)"
  define sheets where
    "sheets = map (\<lambda>(k, df). To_excel_sheet df wb (format_02d (k + 1)) False) (enumerate 0 dfs)"
  have loop: "to_xlsx_loop L wb 0 dfs = perform_all L sheets"
    by (rule ext) (simp add: to_xlsx_loop_eq sheets_def)
  have "to_xlsx L path xlsx_path log = with_ExcelWriter L wb (to_xlsx_loop L wb 0 dfs) log"
    using assms by (simp add: to_xlsx_def Let_def wb_def)
  then have x: "to_xlsx L path xlsx_path log = with_ExcelWriter L wb (perform_all L sheets) log"
    by (simp only: loop)
  have ok: "to_xlsx L path xlsx_path log = (Inr (), log @ [ExcelWriter_enter wb] @ sheets @ [ExcelWriter_exit wb])"
    if "returns_all L (ExcelWriter_enter wb # sheets @ [ExcelWriter_exit wb]) log"
  proof -
    have a: "pandas L log (ExcelWriter_enter wb) = None"
      and b: "returns_all L sheets (log @ [ExcelWriter_enter wb])"
      and c: "pandas L (log @ [ExcelWriter_enter wb] @ sheets) (ExcelWriter_exit wb) = None"
      using that by (simp_all add: returns_all_append)
    have c': "pandas L (log @ ExcelWriter_enter wb # sheets) (ExcelWriter_exit wb) = None"
      using c by simp
    show ?thesis
      unfolding x with_ExcelWriter_def
      by (simp add: perform_returns [OF a] returns_all_perform_all [OF b] perform_returns [OF c'])
  qed
  have bad: "to_xlsx L path xlsx_path log = (Inl e, log)"
    if "pandas L log (ExcelWriter_enter wb) = Some e" for e
    unfolding x with_ExcelWriter_def by (simp add: perform_raises [OF that])
  show ?thesis
    using ok bad unfolding wb_def sheets_def
    by (simp add: format_02d_two_digits)
qed

theorem to_xlsx_multiple_witness:
  "to_df (example_library example_mps) ''run.mps''
     = Inr (Frames [example_records 20, example_records 30])
   \<and> returns_all (example_library example_mps)
       [ExcelWriter_enter ''run.xlsx'',
        To_excel_sheet (example_records 20) ''run.xlsx'' ''01'' False,
        To_excel_sheet (example_records 30) ''run.xlsx'' ''02'' False,
        ExcelWriter_exit ''run.xlsx''] []
   \<and> to_xlsx (example_library example_mps) ''run.mps'' None []
       = (Inr (), [ExcelWriter_enter ''run.xlsx'',
                   To_excel_sheet (example_records 20) ''run.xlsx'' ''01'' False,
                   To_excel_sheet (example_records 30) ''run.xlsx'' ''02'' False,
                   ExcelWriter_exit ''run.xlsx''])
   \<and> to_xlsx (example_library example_mps) ''run.mps'' (Some ''out/book.xlsx'') []
       = (Inr (), [ExcelWriter_enter ''out/book.xlsx'',
                   To_excel_sheet (example_records 20) ''out/book.xlsx'' ''01'' False,
                   To_excel_sheet (example_records 30) ''out/book.xlsx'' ''02'' False,
                   ExcelWriter_exit ''out/book.xlsx''])
   \<and> pandas (example_library example_mps) [] (ExcelWriter_enter ''out/table.dat'')
       = Some (ValueError ''No engine for filetype'')
   \<and> to_xlsx (example_library example_mps) ''run.mps'' (Some ''out/table.dat'') []
       = (Inl (ValueError ''No engine for filetype''), [])"
proof -
  have p: "pandas (example_library parsed) = example_pandas" for parsed
    by (simp add: example_library_def)
  have f: "format_02d (Suc 0) = ''01''" "format_02d (Suc (Suc 0)) = ''02''" by code_simp+
  show ?thesis
    using to_xlsx_multiple [OF example_mps_to_df, of None "[]"]
      to_xlsx_multiple [OF example_mps_to_df, of "Some ''out/book.xlsx''" "[]"]
      to_xlsx_multiple [OF example_mps_to_df, of "Some ''out/table.dat''" "[]"]
    by (simp add: example_mps_to_df example_paths f enumerate_eq_zip upt_rec p
        then_do_def perform_def)
qed

text \<open>
  With the outcomes of the examples, closing a writer that received no sheet raises: on
  an empty list of tables \<open>to_xlsx\<close> opens the writer and raises when the block ends.
\<close>

lemma to_xlsx_no_tables_example:
  "to_xlsx (example_library example_mps_unusable) ''run.mps'' None []
     = (Inl IndexError, [ExcelWriter_enter ''run.xlsx''])"
proof -
  have "to_df (example_library example_mps_unusable) ''run.mps'' = Inr (Frames [])"
    by (simp add: to_df_def splitext_examples example_library_def example_mps_unusable_def
        technique_step_def)
  then show ?thesis
    by (simp add: to_xlsx_def with_ExcelWriter_def perform_def example_library_def example_paths)
qed

section \<open>Path derivation\<close>

subsection \<open>\<open>rfind\<close>, \<open>rstrip\<close>, \<open>split\<close> and \<open>join\<close>\<close>

lemma rfind_notin: "c \<notin> set s \<Longrightarrow> rfind c s = -1"
  by (induction s) (auto simp: Let_def)

lemma rfind_ge: "-1 \<le> rfind c s"
  by (induction s) (auto simp: Let_def)

lemma rfind_in: "c \<in> set s \<Longrightarrow> 0 \<le> rfind c s"
  by (induction s) (auto simp: Let_def rfind_notin)

lemma rfind_append_notin: "c \<notin> set ys \<Longrightarrow> rfind c (xs @ c # ys) = int (length xs)"
  by (induction xs) (auto simp: Let_def rfind_notin)

lemma rfind_split:
  assumes "c \<in> set s"
  shows "\<exists>xs ys. s = xs @ c # ys \<and> c \<notin> set ys"
  using assms by (metis split_list_last)

lemma rstrip_snoc_ne: "x \<noteq> c \<Longrightarrow> rstrip c (xs @ [x]) = xs @ [x]"
  by (simp add: rstrip_def)

lemma rstrip_snoc_eq: "rstrip c (xs @ [c]) = rstrip c xs"
  by (simp add: rstrip_def)

lemma rstrip_cases: "rstrip c s = [] \<and> s = replicate (length s) c \<or> (rstrip c s \<noteq> [] \<and> last (rstrip c s) \<noteq> c)"
proof (induction s rule: rev_induct)
  case Nil
  then show ?case by (simp add: rstrip_def)
next
  case (snoc x xs)
  then show ?case
  proof (cases "x = c")
    case True
    have "xs = replicate (length xs) c \<Longrightarrow> xs @ [c] = replicate (Suc (length xs)) c"
      by (metis replicate_Suc replicate_append_same)
    with True snoc show ?thesis by (auto simp: rstrip_snoc_eq)
  next
    case False
    then show ?thesis by (simp add: rstrip_snoc_ne)
  qed
qed

lemma split_path_head_normal:
  "fst (split_path p) = replicate (length (fst (split_path p))) sep
   \<or> (fst (split_path p) \<noteq> [] \<and> last (fst (split_path p)) \<noteq> sep)"
  using rstrip_cases [of sep "take (nat (rfind sep p + 1)) p"]
  by (auto simp: split_path_def Let_def)

lemma split_path_tail_no_sep: "sep \<notin> set (snd (split_path p))"
proof (cases "sep \<in> set p")
  case False
  then show ?thesis by (auto simp: split_path_def Let_def dest: in_set_dropD)
next
  case True
  then obtain xs ys where "p = xs @ sep # ys" "sep \<notin> set ys"
    using rfind_split by metis
  moreover have "nat (int (length xs) + 1) = Suc (length xs)" by simp
  ultimately show ?thesis
    by (simp add: split_path_def Let_def rfind_append_notin)
qed

lemma split_path_at_sep:
  assumes "sep \<notin> set x"
  shows "split_path (h @ sep # x) =
           (if h @ [sep] \<noteq> replicate (Suc (length h)) sep then rstrip sep (h @ [sep])
            else h @ [sep], x)"
proof -
  have i: "nat (rfind sep (h @ sep # x) + 1) = Suc (length h)"
    using assms by (simp add: rfind_append_notin)
  have t: "take (Suc (length h)) (h @ sep # x) = h @ [sep]"
    by simp
  have d: "drop (Suc (length h)) (h @ sep # x) = x"
    by simp
  show ?thesis
    unfolding split_path_def Let_def i t d by simp
qed

lemma split_path_no_sep: "sep \<notin> set x \<Longrightarrow> split_path x = ([], x)"
  by (simp add: split_path_def Let_def rfind_notin)

lemma split_path_join:
  assumes h: "h = replicate (length h) sep \<or> (h \<noteq> [] \<and> last h \<noteq> sep)"
    and x: "sep \<notin> set x"
  shows "split_path (join_path h x) = (h, x)"
proof -
  have nostart: "\<not> startswith x sep"
    using x by (cases x) (auto simp: startswith_def)
  consider (empty) "h = []" | (seps) "h \<noteq> []" "h = replicate (length h) sep"
    | (proper) "h \<noteq> []" "last h \<noteq> sep"
    using h by blast
  then show ?thesis
  proof cases
    case empty
    then show ?thesis
      using x nostart by (simp add: join_path_def split_path_no_sep)
  next
    case seps
    then obtain h' where h': "h = h' @ [sep]"
      by (metis append_butlast_last_id last_replicate length_0_conv)
    have j: "join_path (h' @ [sep]) x = h' @ sep # x"
      using nostart by (simp add: join_path_def endswith_def)
    have eq: "h' @ [sep] = replicate (Suc (length h')) sep"
      using seps(2) h' by simp
    have "split_path (h' @ sep # x) = (h' @ [sep], x)"
      by (subst split_path_at_sep [OF x]) (simp only: eq if_False not_True_eq_False simp_thms)
    then show ?thesis
      by (simp only: h' j)
  next
    case proper
    have j: "join_path h x = h @ sep # x"
      using nostart proper by (simp add: join_path_def endswith_def)
    have ne: "h @ [sep] \<noteq> replicate (Suc (length h)) sep"
    proof
      assume "h @ [sep] = replicate (Suc (length h)) sep"
      then have "h = replicate (length h) sep"
        by (metis append1_eq_conv replicate_Suc replicate_append_same)
      then show False using proper by (metis last_replicate length_0_conv)
    qed
    have r: "rstrip sep (h @ [sep]) = h"
      using proper by (metis append_butlast_last_id rstrip_snoc_eq rstrip_snoc_ne)
    show ?thesis
      unfolding j split_path_at_sep [OF x] using ne r by simp
  qed
qed

lemma splitext_loop_Some:
  "splitext_loop p i d = Some r \<Longrightarrow> r = (take d p, drop d p)"
proof (induction p i d rule: splitext_loop.induct)
  case (1 p i d)
  then show ?case
    by (subst (asm) (2) splitext_loop.simps) (auto split: if_splits)
qed

lemma splitext_append: "fst (splitext p) @ snd (splitext p) = p"
  by (auto simp: splitext_def Let_def split: option.splits dest: splitext_loop_Some)

lemma splitext_fst_subset: "set (fst (splitext p)) \<subseteq> set p"
  by (metis splitext_append set_append Un_upper1)


lemma rfind_less: "rfind c s < int (length s)"
  by (induction s) (auto simp: Let_def)

lemma rfind_append_other: "c \<notin> set ys \<Longrightarrow> rfind c (xs @ ys) = rfind c xs"
  by (induction xs) (auto simp: Let_def rfind_notin)

lemma splitext_loop_shift:
  "splitext_loop (pre @ t) (length pre + i) (length pre + d)
     = map_option (\<lambda>(x, y). (pre @ x, y)) (splitext_loop t i d)"
proof (induction t i d rule: splitext_loop.induct)
  case (1 p i d)
  show ?case
  proof (cases "i < d")
    case False
    then show ?thesis
      by (simp add: splitext_loop.simps [of p i d]
          splitext_loop.simps [of "pre @ p" "length pre + i" "length pre + d"])
  next
    case True
    show ?thesis
    proof (cases "take 1 (drop i p) \<noteq> [extsep]")
      case True
      with \<open>i < d\<close> show ?thesis
        by (simp add: splitext_loop.simps [of p i d]
            splitext_loop.simps [of "pre @ p" "length pre + i" "length pre + d"])
    next
      case False
      with \<open>i < d\<close> "1.IH" show ?thesis
        by (simp add: splitext_loop.simps [of p i d]
            splitext_loop.simps [of "pre @ p" "length pre + i" "length pre + d"])
    qed
  qed
qed

lemma sep_neq_extsep: "sep \<noteq> extsep"
  by (simp add: sep_def extsep_def)

lemma splitext_no_dot: "extsep \<notin> set p \<Longrightarrow> splitext p = (p, [])"
  using rfind_ge [of sep p] by (simp add: splitext_def Let_def rfind_notin)

lemma splitext_prefix:
  assumes "sep \<notin> set tail"
  shows "splitext (h @ sep # tail) = (h @ sep # fst (splitext tail), snd (splitext tail))"
proof (cases "extsep \<in> set tail")
  case False
  have "rfind extsep (h @ sep # tail) = rfind extsep h"
    using False sep_neq_extsep rfind_append_other [of extsep "sep # tail" h] by auto
  moreover have "rfind sep (h @ sep # tail) = int (length h)"
    using assms by (simp add: rfind_append_notin)
  ultimately have "splitext (h @ sep # tail) = (h @ sep # tail, [])"
    using rfind_less [of extsep h] by (simp add: splitext_def Let_def)
  then show ?thesis
    using False by (simp add: splitext_no_dot)
next
  case True
  then obtain a b where tail: "tail = a @ extsep # b" and b: "extsep \<notin> set b"
    using rfind_split by metis
  have st: "rfind sep tail = -1"
    using assms by (simp add: rfind_notin)
  have dt: "rfind extsep tail = int (length a)"
    using b by (simp add: tail rfind_append_notin)
  have sp: "rfind sep (h @ sep # tail) = int (length h)"
    using assms by (simp add: rfind_append_notin)
  have "h @ sep # tail = (h @ sep # a) @ extsep # b"
    by (simp add: tail)
  then have dp: "rfind extsep (h @ sep # tail) = int (length (h @ sep # a))"
    using b rfind_append_notin by metis
  have shift: "splitext_loop ((h @ [sep]) @ tail) (length (h @ [sep]) + 0) (length (h @ [sep]) + length a)
     = map_option (\<lambda>(x, y). ((h @ [sep]) @ x, y)) (splitext_loop tail 0 (length a))"
    by (rule splitext_loop_shift)
  have l: "splitext tail = (case splitext_loop tail 0 (length a) of Some r \<Rightarrow> r | None \<Rightarrow> (tail, []))"
    by (simp add: splitext_def Let_def st dt)
  have r: "splitext (h @ sep # tail) =
      (case splitext_loop (h @ sep # tail) (Suc (length h)) (Suc (length h + length a)) of
         Some r \<Rightarrow> r | None \<Rightarrow> (h @ sep # tail, []))"
    by (simp add: splitext_def Let_def sp dp nat_add_distrib)
  show ?thesis
    using shift by (simp add: l r split: option.splits)
qed

lemma join_path_empty: "join_path [] b = b"
  by (simp add: join_path_def)

lemma construct_path_eq:
  "construct_path path ext =
     join_path (fst (split_path path)) (fst (splitext (snd (split_path path))) @ ext)"
  by (simp add: construct_path_def split: prod.splits)

lemma stem_no_sep: "sep \<notin> set (fst (splitext (snd (split_path p))))"
  using splitext_fst_subset [of "snd (split_path p)"] split_path_tail_no_sep [of p] by blast

lemma split_path_construct_path:
  assumes "sep \<notin> set ext"
  shows "split_path (construct_path path ext)
           = (fst (split_path path), fst (splitext (snd (split_path path))) @ ext)"
  unfolding construct_path_eq
  using assms stem_no_sep [of path] split_path_head_normal [of path]
  by (intro split_path_join) auto

lemma construct_path_plain:
  assumes ext: "sep \<notin> set ext"
    and p: "sep \<notin> set path
            \<or> (\<exists>h tail. path = h @ sep # tail \<and> sep \<notin> set tail
                  \<and> (h = replicate (length h) sep \<or> last h \<noteq> sep))"
  shows "construct_path path ext = fst (splitext path) @ ext"
proof (cases "sep \<in> set path")
  case False
  then show ?thesis
    by (simp add: construct_path_eq split_path_no_sep join_path_empty)
next
  case True
  then obtain h tail where path: "path = h @ sep # tail" and tail: "sep \<notin> set tail"
    and h: "h = replicate (length h) sep \<or> last h \<noteq> sep"
    using p by blast
  let ?x = "fst (splitext tail) @ ext"
  have x: "sep \<notin> set ?x"
    using ext tail splitext_fst_subset [of tail] by auto
  then have nostart: "\<not> startswith ?x sep"
    by (cases ?x) (auto simp: startswith_def)
  have goal: "fst (splitext path) @ ext = h @ sep # ?x"
    by (simp add: path splitext_prefix [OF tail])
  show ?thesis
  proof (cases "h = replicate (length h) sep")
    case True
    then have all: "h @ [sep] = replicate (Suc (length h)) sep"
      by (metis replicate_Suc replicate_append_same)
    have "split_path path = (h @ [sep], tail)"
      unfolding path by (subst split_path_at_sep [OF tail]) (simp only: all simp_thms if_False)
    then have "construct_path path ext = join_path (h @ [sep]) ?x"
      by (simp add: construct_path_eq)
    also have "\<dots> = h @ sep # ?x"
      using nostart by (simp add: join_path_def endswith_def)
    finally show ?thesis by (simp add: goal)
  next
    case False
    then have hne: "h \<noteq> []" and lst: "last h \<noteq> sep"
      using h by auto
    have ne: "h @ [sep] \<noteq> replicate (Suc (length h)) sep"
    proof
      assume "h @ [sep] = replicate (Suc (length h)) sep"
      then have "h = replicate (length h) sep"
        by (metis append1_eq_conv replicate_Suc replicate_append_same)
      then show False using False by simp
    qed
    have r: "rstrip sep (h @ [sep]) = h"
      using hne lst by (metis append_butlast_last_id rstrip_snoc_eq rstrip_snoc_ne)
    have "split_path path = (h, tail)"
      unfolding path by (subst split_path_at_sep [OF tail]) (simp only: ne r simp_thms if_True)
    then have "construct_path path ext = join_path h ?x"
      by (simp add: construct_path_eq)
    also have "\<dots> = h @ sep # ?x"
      using nostart hne lst by (simp add: join_path_def endswith_def)
    finally show ?thesis by (simp add: goal)
  qed
qed

lemma digit_char_no_sep: "d < 10 \<Longrightarrow> digit_char d \<noteq> sep"
proof -
  assume "d < 10"
  then have "d \<in> {0, 1, 2, 3, 4, 5, 6, 7, 8, 9}" by auto
  then show ?thesis
    by (auto simp: digit_char_def sep_def)
qed

lemma str_nat_no_sep: "sep \<notin> set (str_nat n)"
proof (induction n rule: str_nat.induct)
  case (1 n)
  show ?case
  proof (cases "n < 10")
    case True
    then show ?thesis
      using digit_char_no_sep [of n] by (simp add: str_nat.simps [of n])
  next
    case False
    then show ?thesis
      using "1.IH" digit_char_no_sep [of "n mod 10"] by (simp add: str_nat.simps [of n])
  qed
qed

lemma format_02d_no_sep: "sep \<notin> set (format_02d n)"
  using str_nat_no_sep [of n] by (auto simp: format_02d_def Let_def sep_def)

subsection \<open>The derived path\<close>

text \<open>
  C5. \<open>_construct_path\<close> and the indexed variant are functions of their arguments alone:
  they take no state and touch no file. For a new extension without a separator, the
  result splits into the directory of the old path (as \<open>os.path.split\<close> returns it) and
  a final component that is the old final component with its extension, as
  \<open>os.path.splitext\<close> finds it, replaced by the new extension; the indexed variant puts
  \<open>_\<close> and the index in the format \<open>02d\<close> in front of the new extension. When the
  directory part of the path ends in a single separator or consists of separators only,
  the result is the path string itself, its extension stripped and the new one appended.
  An index below 100 is printed as exactly two digits, and index 1 as \<open>01\<close>.
\<close>

theorem derive_path:
  assumes "sep \<notin> set ext"
  shows "split_path (construct_path path ext)
           = (fst (split_path path), fst (splitext (snd (split_path path))) @ ext)
       \<and> fst (splitext (snd (split_path path))) @ snd (splitext (snd (split_path path)))
           = snd (split_path path)
       \<and> split_path (deriveIndexed path index ext)
           = (fst (split_path path),
              fst (splitext (snd (split_path path))) @ ''_'' @ format_02d index @ ext)
       \<and> (sep \<notin> set path
            \<or> (\<exists>h tail. path = h @ sep # tail \<and> sep \<notin> set tail
                  \<and> (h = replicate (length h) sep \<or> last h \<noteq> sep)) \<longrightarrow>
            construct_path path ext = fst (splitext path) @ ext
            \<and> deriveIndexed path index ext
                = fst (splitext path) @ ''_'' @ format_02d index @ ext)
       \<and> (index < 100 \<longrightarrow>
            format_02d index = [digit_char (index div 10), digit_char (index mod 10)])
       \<and> format_02d 1 = ''01''"
proof -
  have ext': "sep \<notin> set (''_'' @ format_02d index @ ext)"
    using assms format_02d_no_sep [of index] by (simp add: sep_def)
  have one: "format_02d 1 = ''01''"
    by code_simp
  show ?thesis
    using split_path_construct_path [OF assms, of path]
      split_path_construct_path [OF ext', of path]
      construct_path_plain [OF assms, of path] construct_path_plain [OF ext', of path]
      splitext_append [of "snd (split_path path)"] one
    by (auto simp: deriveIndexed_def format_02d_two_digits)
qed

theorem derive_path_witness:
  "sep \<notin> set ''.csv''
   \<and> (\<exists>h tail. ''data/run.mpr'' = h @ sep # tail \<and> sep \<notin> set tail
          \<and> (h = replicate (length h) sep \<or> last h \<noteq> sep))
   \<and> (1::nat) < 100
   \<and> construct_path ''data/run.mpr'' ''.csv'' = ''data/run.csv''
   \<and> deriveIndexed ''data/run.mpr'' 1 ''.csv'' = ''data/run_01.csv''
   \<and> split_path (construct_path ''data/run.mpr'' ''.csv'') = (''data'', ''run.csv'')
   \<and> split_path (deriveIndexed ''data/run.mpr'' 1 ''.csv'') = (''data'', ''run_01.csv'')"
proof -
  have e: "sep \<notin> set ''.csv''"
    by (simp add: sep_def)
  have p: "\<exists>h tail. ''data/run.mpr'' = h @ sep # tail \<and> sep \<notin> set tail
          \<and> (h = replicate (length h) sep \<or> last h \<noteq> sep)"
    by (rule exI [of _ "''data''"], rule exI [of _ "''run.mpr''"]) (simp add: sep_def)
  have s: "split_path ''data/run.mpr'' = (''data'', ''run.mpr'')"
    "splitext ''run.mpr'' = (''run'', ''.mpr'')"
    "splitext ''data/run.mpr'' = (''data/run'', ''.mpr'')"
    "split_path ''data/run.csv'' = (''data'', ''run.csv'')"
    "split_path ''data/run_01.csv'' = (''data'', ''run_01.csv'')"
    "digit_char 0 = CHR ''0''" "digit_char (Suc 0) = CHR ''1''"
    by code_simp+
  show ?thesis
    using derive_path [OF e, of "''data/run.mpr''" 1] e p
    by (simp add: s)
qed

section \<open>Tables of a settings file\<close>

subsection \<open>The loop over the techniques\<close>

lemma technique_step_no_data: "\<not> has_data t \<Longrightarrow> technique_step L t df = Inr df"
  by (simp add: has_data_def technique_step_def)

lemma technique_step_unusable: "no_usable_data t \<Longrightarrow> technique_step L t df = Inr df"
proof (cases t)
  case (PDict kvs)
  assume "no_usable_data t"
  then show ?thesis
    unfolding PDict
    by (auto simp: technique_step_def map_of_eq_None_iff [symmetric]
        split: option.splits pyval.splits)
qed simp_all

lemma technique_step_text:
  assumes "map_of kvs ''data'' = Some (PDict d)" and "map_of d ''mpt'' = Some m"
  shows "technique_step L (PDict kvs) df = bindE (text_table L m) (\<lambda>x. Inr (df @ [x]))"
proof -
  have "''data'' \<in> fst ` set kvs" "''mpt'' \<in> fst ` set d"
    using assms by (metis map_of_eq_None_iff option.distinct(1))+
  then show ?thesis
    using assms by (simp add: technique_step_def text_table_def bindE_assoc)
qed

lemma technique_step_binary:
  assumes "map_of kvs ''data'' = Some (PDict d)" and "map_of d ''mpt'' = None"
    and "map_of d ''mpr'' = Some r"
  shows "technique_step L (PDict kvs) df = bindE (binary_table L r) (\<lambda>x. Inr (df @ [x]))"
proof -
  have "''data'' \<in> fst ` set kvs" "''mpr'' \<in> fst ` set d" "''mpt'' \<notin> fst ` set d"
    using assms by (metis map_of_eq_None_iff option.distinct(1))+
  then show ?thesis
    using assms by (simp add: technique_step_def binary_table_def bindE_assoc)
qed

lemma bindE_cong: "m = m' \<Longrightarrow> (\<And>x. f x = g x) \<Longrightarrow> bindE m f = bindE m' g"
  by (cases m') (simp_all add: bindE_def)

lemma techniques_loop_append:
  "techniques_loop L (xs @ ys) df = bindE (techniques_loop L xs df) (techniques_loop L ys)"
  by (induction xs arbitrary: df) (simp_all add: bindE_assoc cong: bindE_cong)

lemma techniques_loop_filter:
  assumes "\<And>t df. t \<in> set ts \<Longrightarrow> \<not> P t \<Longrightarrow> technique_step L t df = Inr df"
  shows "techniques_loop L (filter P ts) df = techniques_loop L ts df"
  using assms by (induction ts arbitrary: df) (simp_all cong: bindE_cong)

lemma technique_step_grows:
  "technique_step L t df = Inr df' \<Longrightarrow> df' = df \<or> (\<exists>x. df' = df @ [x])"
  by (auto simp: technique_step_def bindE_def split: sum.splits if_splits)

lemma techniques_loop_length:
  "techniques_loop L ts df = Inr df' \<Longrightarrow> length df' \<le> length df + length ts"
proof (induction ts arbitrary: df)
  case Nil
  then show ?case by simp
next
  case (Cons t ts)
  then obtain df1 where s: "technique_step L t df = Inr df1"
    and l: "techniques_loop L ts df1 = Inr df'"
    by (auto simp: bindE_def split: sum.splits)
  have "length df1 \<le> Suc (length df)"
    using technique_step_grows [OF s] by auto
  then show ?case
    using Cons.IH [OF l] by simp
qed

lemma to_df_settings:
  assumes "snd (splitext path) = ''.mps''"
    and "parse_mps L path (Some True) = Inr mps"
    and "getitem mps ''techniques'' = Inr (PList ts)"
  shows "to_df L path = map_sum id Frames (techniques_loop L ts [])"
  using assms by (simp add: to_df_mps settings_tables_def)


subsection \<open>Text before binary\<close>

text \<open>
  C1. For a settings input whose techniques are the list \<open>ts\<close>: a technique with a
  \<open>data\<close> dictionary that has an \<open>mpt\<close> entry puts the table of that text result into
  the output at its place, whether or not an \<open>mpr\<close> entry exists beside it; a technique
  whose \<open>data\<close> has no \<open>mpt\<close> entry but an \<open>mpr\<close> entry puts the table of that binary
  result there. In particular, for three techniques of which the first has no \<open>data\<close>, the
  second has both entries and the third only \<open>mpr\<close>, \<open>to_df\<close> returns exactly two tables:
  the text table of the second and the binary table of the third.
\<close>

theorem text_preferred:
  assumes "snd (splitext path) = ''.mps''"
    and "parse_mps L path (Some True) = Inr mps"
    and "getitem mps ''techniques'' = Inr (PList ts)"
  shows "(\<forall>before kvs after d m.
            ts = before @ PDict kvs # after \<and> map_of kvs ''data'' = Some (PDict d)
            \<and> map_of d ''mpt'' = Some m \<longrightarrow>
            to_df L path =
              bindE (techniques_loop L before []) (\<lambda>df.
              bindE (text_table L m) (\<lambda>mpt_df.
                map_sum id Frames (techniques_loop L after (df @ [mpt_df])))))
       \<and> (\<forall>before kvs after d r.
            ts = before @ PDict kvs # after \<and> map_of kvs ''data'' = Some (PDict d)
            \<and> map_of d ''mpt'' = None \<and> map_of d ''mpr'' = Some r \<longrightarrow>
            to_df L path =
              bindE (techniques_loop L before []) (\<lambda>df.
              bindE (binary_table L r) (\<lambda>mpr_df.
                map_sum id Frames (techniques_loop L after (df @ [mpr_df])))))
       \<and> (\<forall>t1 t2 t3 d2 text2 binary2 d3 binary3 df2 df3.
            ts = [PDict t1, PDict t2, PDict t3]
            \<and> map_of t1 ''data'' = None
            \<and> map_of t2 ''data'' = Some (PDict d2)
            \<and> map_of d2 ''mpt'' = Some text2 \<and> map_of d2 ''mpr'' = Some binary2
            \<and> map_of t3 ''data'' = Some (PDict d3)
            \<and> map_of d3 ''mpt'' = None \<and> map_of d3 ''mpr'' = Some binary3
            \<and> text_table L text2 = Inr df2 \<and> binary_table L binary3 = Inr df3 \<longrightarrow>
            to_df L path = Inr (Frames [df2, df3]))"
proof (intro conjI allI impI)
  fix before kvs after d m
  assume a: "ts = before @ PDict kvs # after \<and> map_of kvs ''data'' = Some (PDict d)
            \<and> map_of d ''mpt'' = Some m"
  then have "technique_step L (PDict kvs) df = bindE (text_table L m) (\<lambda>x. Inr (df @ [x]))" for df
    by (simp add: technique_step_text)
  then show "to_df L path =
              bindE (techniques_loop L before []) (\<lambda>df.
              bindE (text_table L m) (\<lambda>mpt_df.
                map_sum id Frames (techniques_loop L after (df @ [mpt_df]))))"
    using a
    by (simp add: to_df_settings [OF assms] techniques_loop_append bindE_assoc
        flip: bindE_map_sum)
next
  fix before kvs after d r
  assume a: "ts = before @ PDict kvs # after \<and> map_of kvs ''data'' = Some (PDict d)
            \<and> map_of d ''mpt'' = None \<and> map_of d ''mpr'' = Some r"
  then have "technique_step L (PDict kvs) df = bindE (binary_table L r) (\<lambda>x. Inr (df @ [x]))" for df
    by (simp add: technique_step_binary)
  then show "to_df L path =
              bindE (techniques_loop L before []) (\<lambda>df.
              bindE (binary_table L r) (\<lambda>mpr_df.
                map_sum id Frames (techniques_loop L after (df @ [mpr_df]))))"
    using a
    by (simp add: to_df_settings [OF assms] techniques_loop_append bindE_assoc
        flip: bindE_map_sum)
next
  fix t1 t2 t3 d2 text2 binary2 d3 binary3 df2 df3
  assume a: "ts = [PDict t1, PDict t2, PDict t3]
            \<and> map_of t1 ''data'' = None
            \<and> map_of t2 ''data'' = Some (PDict d2)
            \<and> map_of d2 ''mpt'' = Some text2 \<and> map_of d2 ''mpr'' = Some binary2
            \<and> map_of t3 ''data'' = Some (PDict d3)
            \<and> map_of d3 ''mpt'' = None \<and> map_of d3 ''mpr'' = Some binary3
            \<and> text_table L text2 = Inr df2 \<and> binary_table L binary3 = Inr df3"
  have s1: "technique_step L (PDict t1) df = Inr df" for df
  proof -
    have "''data'' \<notin> fst ` set t1"
      using a by (simp add: map_of_eq_None_iff)
    then show ?thesis
      by (simp add: technique_step_def)
  qed
  have s2: "technique_step L (PDict t2) df = Inr (df @ [df2])" for df
    using a by (simp add: technique_step_text)
  have s3: "technique_step L (PDict t3) df = Inr (df @ [df3])" for df
    using a by (simp add: technique_step_binary)
  show "to_df L path = Inr (Frames [df2, df3])"
    using a by (simp add: to_df_settings [OF assms] s1 s2 s3)
qed


theorem text_preferred_witness:
  "snd (splitext ''run.mps'') = ''.mps''
   \<and> parse_mps (example_library example_mps) ''run.mps'' (Some True) = Inr example_mps
   \<and> getitem example_mps ''techniques'' =
       Inr (PList [PDict [(''technique'', PStr ''OCV'')],
                   PDict [(''technique'', PStr ''CA''),
                          (''data'', PDict [(''mpr'', example_mpr 10), (''mpt'', example_mpt 20)])],
                   PDict [(''technique'', PStr ''CP''),
                          (''data'', PDict [(''mpr'', example_mpr 30)])]])
   \<and> text_table (example_library example_mps) (example_mpt 20) = Inr (example_records 20)
   \<and> binary_table (example_library example_mps) (example_mpr 10) = Inr (example_records 10)
   \<and> binary_table (example_library example_mps) (example_mpr 30) = Inr (example_records 30)
   \<and> to_df (example_library example_mps) ''run.mps''
       = Inr (Frames [example_records 20, example_records 30])"
proof -
  let ?L = "example_library example_mps"
  let ?t1 = "[(''technique'', PStr ''OCV'')] :: (string \<times> int pyval) list"
  let ?d2 = "[(''mpr'', example_mpr 10), (''mpt'', example_mpt 20)]"
  let ?t2 = "[(''technique'', PStr ''CA''), (''data'', PDict ?d2)]"
  let ?d3 = "[(''mpr'', example_mpr 30)]"
  let ?t3 = "[(''technique'', PStr ''CP''), (''data'', PDict ?d3)]"
  have e: "snd (splitext ''run.mps'') = ''.mps''"
    by (simp add: splitext_examples)
  have p: "parse_mps ?L ''run.mps'' (Some True) = Inr example_mps"
    by (simp add: example_library_def)
  have g: "getitem example_mps ''techniques'' = Inr (PList [PDict ?t1, PDict ?t2, PDict ?t3])"
    by (simp add: example_mps_def)
  have tt: "text_table ?L (example_mpt 20) = Inr (example_records 20)"
    by (simp add: text_table_def example_library_def example_mpt_def)
  have b2: "binary_table ?L (example_mpr 10) = Inr (example_records 10)"
    by (simp add: binary_table_def example_library_def example_mpr_def)
  have b3: "binary_table ?L (example_mpr 30) = Inr (example_records 30)"
    by (simp add: binary_table_def example_library_def example_mpr_def)
  have h: "[PDict ?t1, PDict ?t2, PDict ?t3] = [PDict ?t1, PDict ?t2, PDict ?t3]
            \<and> map_of ?t1 ''data'' = None
            \<and> map_of ?t2 ''data'' = Some (PDict ?d2)
            \<and> map_of ?d2 ''mpt'' = Some (example_mpt 20)
            \<and> map_of ?d2 ''mpr'' = Some (example_mpr 10)
            \<and> map_of ?t3 ''data'' = Some (PDict ?d3)
            \<and> map_of ?d3 ''mpt'' = None \<and> map_of ?d3 ''mpr'' = Some (example_mpr 30)
            \<and> text_table ?L (example_mpt 20) = Inr (example_records 20)
            \<and> binary_table ?L (example_mpr 30) = Inr (example_records 30)"
    by (simp add: tt b3)
  have "to_df ?L ''run.mps'' = Inr (Frames [example_records 20, example_records 30])"
    by (rule text_preferred [OF e p g, THEN conjunct2, THEN conjunct2, rule_format, OF h])
  then show ?thesis
    using e p g tt b2 b3 by simp
qed

subsection \<open>Techniques without data\<close>

text \<open>
  C2. A technique without \<open>data\<close> adds nothing to the output: \<open>to_df\<close> returns what the
  loop returns on the techniques that have data, in their order, so the list it returns is
  no longer than the number of those techniques, and strictly shorter than the number of
  all techniques when one of them has no data.
\<close>

theorem techniques_without_data_skipped:
  assumes "snd (splitext path) = ''.mps''"
    and "parse_mps L path (Some True) = Inr mps"
    and "getitem mps ''techniques'' = Inr (PList ts)"
  shows "to_df L path = map_sum id Frames (techniques_loop L (filter has_data ts) [])
       \<and> (\<forall>r. to_df L path = Inr r \<longrightarrow>
             (\<exists>dfs. r = Frames dfs
                \<and> length dfs \<le> length (filter has_data ts)
                \<and> ((\<exists>t \<in> set ts. \<not> has_data t) \<longrightarrow> length dfs < length ts)))"
proof -
  have eq: "techniques_loop L (filter has_data ts) [] = techniques_loop L ts []"
    by (rule techniques_loop_filter) (rule technique_step_no_data)
  have d: "to_df L path = map_sum id Frames (techniques_loop L (filter has_data ts) [])"
    by (simp add: to_df_settings [OF assms] eq)
  have "\<exists>dfs. r = Frames dfs \<and> length dfs \<le> length (filter has_data ts)
          \<and> ((\<exists>t \<in> set ts. \<not> has_data t) \<longrightarrow> length dfs < length ts)"
    if r: "to_df L path = Inr r" for r
  proof -
    obtain dfs where l: "techniques_loop L (filter has_data ts) [] = Inr dfs" and f: "r = Frames dfs"
      using r unfolding d by (auto simp: map_sum_eq_Inr)
    have le: "length dfs \<le> length (filter has_data ts)"
      using techniques_loop_length [OF l] by simp
    have "length dfs < length ts" if "\<exists>t \<in> set ts. \<not> has_data t"
      using that le by (meson le_less_trans length_filter_less)
    with le f show ?thesis by blast
  qed
  with d show ?thesis by blast
qed

theorem techniques_without_data_skipped_witness:
  "snd (splitext ''run.mps'') = ''.mps''
   \<and> parse_mps (example_library example_mps) ''run.mps'' (Some True) = Inr example_mps
   \<and> (\<exists>ts. getitem example_mps ''techniques'' = Inr (PList ts) \<and> length ts = 3
         \<and> (\<exists>t \<in> set ts. \<not> has_data t))
   \<and> to_df (example_library example_mps) ''run.mps''
       = Inr (Frames [example_records 20, example_records 30])
   \<and> length [example_records 20, example_records 30] < (3::nat)"
proof -
  let ?L = "example_library example_mps"
  let ?t1 = "PDict [(''technique'', PStr ''OCV'')] :: int pyval"
  let ?t2 = "PDict [(''technique'', PStr ''CA''),
                    (''data'', PDict [(''mpr'', example_mpr 10), (''mpt'', example_mpt 20)])]"
  let ?t3 = "PDict [(''technique'', PStr ''CP''), (''data'', PDict [(''mpr'', example_mpr 30)])]"
  have e: "snd (splitext ''run.mps'') = ''.mps''"
    by (simp add: splitext_examples)
  have p: "parse_mps ?L ''run.mps'' (Some True) = Inr example_mps"
    by (simp add: example_library_def)
  have g: "getitem example_mps ''techniques'' = Inr (PList [?t1, ?t2, ?t3])"
    by (simp add: example_mps_def)
  have n: "\<not> has_data ?t1" "has_data ?t2" "has_data ?t3"
    by (simp_all add: has_data_def)
  have "to_df ?L ''run.mps'' = Inr (Frames [example_records 20, example_records 30])"
    using techniques_without_data_skipped [OF e p g] n
    by (simp add: technique_step_def example_defs)
  then show ?thesis
    using e p g n by simp
qed

subsection \<open>Data with neither a text nor a binary entry\<close>

text \<open>
  C10. A technique whose \<open>data\<close> dictionary has neither an \<open>mpt\<close> nor an \<open>mpr\<close> key
  leaves the list as it is and raises nothing, so \<open>to_df\<close> returns what the loop returns
  on the remaining techniques. When no technique has usable data, \<open>to_df\<close> returns the
  empty list and \<open>to_csv\<close> makes no write, with or without an explicit path.
\<close>

theorem unusable_data_skipped:
  assumes "snd (splitext path) = ''.mps''"
    and "parse_mps L path (Some True) = Inr mps"
    and "getitem mps ''techniques'' = Inr (PList ts)"
  shows "(\<forall>kvs d df. map_of kvs ''data'' = Some (PDict d)
            \<and> ''mpt'' \<notin> set (map fst d) \<and> ''mpr'' \<notin> set (map fst d) \<longrightarrow>
            no_usable_data (PDict kvs) \<and> technique_step L (PDict kvs) df = Inr df)
       \<and> to_df L path =
           map_sum id Frames (techniques_loop L (filter (\<lambda>t. \<not> no_usable_data t) ts) [])
       \<and> ((\<forall>t \<in> set ts. no_usable_data t) \<longrightarrow>
            to_df L path = Inr (Frames []) \<and> to_csv L path csv_path log = (Inr (), log))"
proof -
  have c1: "\<forall>kvs d df. map_of kvs ''data'' = Some (PDict d)
            \<and> ''mpt'' \<notin> set (map fst d) \<and> ''mpr'' \<notin> set (map fst d) \<longrightarrow>
            no_usable_data (PDict kvs) \<and> technique_step L (PDict kvs) df = Inr df"
    by (simp add: technique_step_unusable)
  have "techniques_loop L (filter (\<lambda>t. \<not> no_usable_data t) ts) [] = techniques_loop L ts []"
    by (rule techniques_loop_filter) (simp add: technique_step_unusable)
  then have c2: "to_df L path =
           map_sum id Frames (techniques_loop L (filter (\<lambda>t. \<not> no_usable_data t) ts) [])"
    by (simp add: to_df_settings [OF assms])
  have c3: "to_df L path = Inr (Frames []) \<and> to_csv L path csv_path log = (Inr (), log)"
    if "\<forall>t \<in> set ts. no_usable_data t"
  proof -
    have "filter (\<lambda>t. \<not> no_usable_data t) ts = []"
      using that by (simp add: filter_empty_conv)
    then have r: "to_df L path = Inr (Frames [])"
      by (simp add: c2)
    then show ?thesis
      by (simp add: to_csv_def)
  qed
  show ?thesis
    using c1 c2 c3 by blast
qed

theorem unusable_data_skipped_witness:
  "snd (splitext ''run.mps'') = ''.mps''
   \<and> parse_mps (example_library example_mps_unusable) ''run.mps'' (Some True)
       = Inr example_mps_unusable
   \<and> (\<exists>ts. getitem example_mps_unusable ''techniques'' = Inr (PList ts)
         \<and> length ts = 3 \<and> (\<forall>t \<in> set ts. no_usable_data t))
   \<and> to_df (example_library example_mps_unusable) ''run.mps'' = Inr (Frames [])
   \<and> to_csv (example_library example_mps_unusable) ''run.mps'' (Some ''out/table.csv'') []
       = (Inr (), [])"
proof -
  let ?L = "example_library example_mps_unusable"
  let ?ts = "[PDict [(''technique'', PStr ''OCV''), (''data'', PDict [])],
              PDict [(''technique'', PStr ''CA''), (''data'', PDict [(''csv'', example_mpt 1)])],
              PDict [(''technique'', PStr ''CP'')]] :: int pyval list"
  have e: "snd (splitext ''run.mps'') = ''.mps''"
    by (simp add: splitext_examples)
  have p: "parse_mps ?L ''run.mps'' (Some True) = Inr example_mps_unusable"
    by (simp add: example_library_def)
  have g: "getitem example_mps_unusable ''techniques'' = Inr (PList ?ts)"
    by (simp add: example_mps_unusable_def)
  have u: "\<forall>t \<in> set ?ts. no_usable_data t"
    by simp
  have "to_df ?L ''run.mps'' = Inr (Frames [])
        \<and> to_csv ?L ''run.mps'' (Some ''out/table.csv'') [] = (Inr (), [])"
    using unusable_data_skipped [OF e p g, of "Some ''out/table.csv''" "[]"] u by blast
  then show ?thesis
    using e p g u by simp
qed

end
